theory Spec2Isabelle
  imports Complex_Main "HOL-Library.Log_Nat"
begin

section \<open>The telemetry core of the EWI breath trainer (src/main.py)\<close>

text \<open>
  The class \<open>LongToneVisualizer\<close> keeps the note and controller state, a rolling history
  of 300 (velocity, note) samples, a colour per note and the statistics of the current note.
  The embedding covers \<open>process_midi\<close> (event dispatch and the history update), the smoothing
  part of \<open>update_graph\<close>, the "clear history" key of \<open>run\<close> and the consistency score of
  \<open>render\<close>. The fields that only feed the display (fonts, note name, debug log, the two
  clock readings \<open>start_time\<close> and \<open>time_held\<close>, \<open>current_note_start_idx\<close>) are left out:
  nothing modelled here reads them.

  Numbers: MIDI bytes are natural numbers and note ids in the history are integers (\<open>-1\<close>
  is "no note"). The velocity history is a float64 array; a float64 value is the real number
  it denotes. The arithmetic of the smoother is modelled with its rounding: every operation
  of \<open>update_graph\<close> returns the exact result rounded to float64 (\<open>fl64\<close> below). The
  statistics (\<open>np.mean\<close>, \<open>np.std\<close>, \<open>np.min\<close>, \<open>np.max\<close>) and the consistency score are
  taken over the reals, without rounding.
\<close>

subsection \<open>Constants\<close>

definition HISTORY_LENGTH :: nat where
  "HISTORY_LENGTH = 300"

type_synonym color = "nat \<times> nat \<times> nat"

definition NOTE_COLORS :: "color list" where
  "NOTE_COLORS =
    [(65, 156, 255), (255, 100, 100), (100, 255, 100), (255, 255, 100),
     (255, 100, 255), (100, 255, 255), (255, 150, 100), (150, 100, 255),
     (255, 200, 150), (150, 255, 150), (200, 150, 255), (255, 150, 200)]"

subsection \<open>State\<close>

record stats =
  mean :: real
  std_dev :: real
  min_v :: real
  max_v :: real

record visualizer =
  current_note :: "nat option"
  current_velocity :: nat
  velocity_history :: "real list"
  note_history :: "int list"
  note_colors :: "nat \<rightharpoonup> color"
  color_index :: nat
  is_note_active :: bool
  stats_of :: stats
  cc_values :: "nat \<rightharpoonup> nat"
  selected_cc :: nat

definition zero_stats :: stats where
  "zero_stats = \<lparr>mean = 0, std_dev = 0, min_v = 0, max_v = 0\<rparr>"

definition init :: visualizer where
  "init =
    \<lparr>current_note = None, current_velocity = 0,
     velocity_history = replicate HISTORY_LENGTH 0,
     note_history = replicate HISTORY_LENGTH (- 1),
     note_colors = Map.empty, color_index = 0, is_note_active = False,
     stats_of = zero_stats, cc_values = Map.empty, selected_cc = 7\<rparr>"

subsection \<open>Event dispatch of \<open>process_midi\<close>\<close>

text \<open>An event is the triple \<open>data[0]\<close>, \<open>data[1]\<close>, \<open>data[2]\<close> of the message.\<close>

type_synonym midi_event = "nat \<times> nat \<times> nat"

definition status_of :: "midi_event \<Rightarrow> nat" where
  "status_of ev = and (fst ev) 240"

fun handle_event :: "midi_event \<Rightarrow> visualizer \<Rightarrow> visualizer" where
  "handle_event (d0, d1, d2) s =
    (let status = status_of (d0, d1, d2) in
     if status = 144 \<and> d2 > 0 then
       (let s1 = s\<lparr>current_note := Some d1, current_velocity := d2, is_note_active := True\<rparr>
        in if note_colors s1 d1 = None
           then s1\<lparr>note_colors := (note_colors s1)(d1 \<mapsto> NOTE_COLORS ! (color_index s1 mod length NOTE_COLORS)),
                   color_index := color_index s1 + 1\<rparr>
           else s1)
     else if status = 128 \<or> (status = 144 \<and> d2 = 0) then
       (if current_note s = Some d1 then s\<lparr>is_note_active := False\<rparr> else s)
     else if status = 176 then
       (let s1 = s\<lparr>cc_values := (cc_values s)(d1 \<mapsto> d2)\<rparr>
        in if d1 = selected_cc s1 then s1\<lparr>current_velocity := d2\<rparr> else s1)
     else s)"

subsection \<open>The history update of \<open>process_midi\<close>\<close>

datatype py_error = TypeError | IndexError

text \<open>\<open>np.roll(a, -1)\<close> moves the first element to the end.\<close>

definition np_roll_left :: "'a list \<Rightarrow> 'a list" where
  "np_roll_left xs = rotate1 xs"

text \<open>\<open>a[-1] = v\<close>; on an empty array numpy raises IndexError.\<close>

definition set_last :: "'a list \<Rightarrow> 'a \<Rightarrow> py_error + 'a list" where
  "set_last xs v = (if xs = [] then Inl IndexError else Inr (xs[length xs - 1 := v]))"

text \<open>
  \<open>velocity_history[note_history == current_note]\<close> followed by the selection of the
  values \<open>> 0\<close>.
\<close>

definition current_note_velocities :: "real list \<Rightarrow> int list \<Rightarrow> int \<Rightarrow> real list" where
  "current_note_velocities vh nh cur =
    filter (\<lambda>v. v > 0) (map fst (filter (\<lambda>(v, n). n = cur) (zip vh nh)))"

definition np_mean :: "real list \<Rightarrow> real" where
  "np_mean xs = sum_list xs / real (length xs)"

definition np_std :: "real list \<Rightarrow> real" where
  "np_std xs = sqrt (np_mean (map (\<lambda>x. (abs (x - np_mean xs))\<^sup>2) xs))"

text \<open>\<open>np.min\<close> and \<open>np.max\<close> are only called on a non-empty array.\<close>

fun np_min :: "real list \<Rightarrow> real" where
  "np_min (x # xs) = fold min xs x"

fun np_max :: "real list \<Rightarrow> real" where
  "np_max (x # xs) = fold max xs x"

definition update_history :: "visualizer \<Rightarrow> py_error + visualizer" where
  "update_history s =
    (if is_note_active s then
       (case set_last (np_roll_left (velocity_history s)) (real (current_velocity s)) of
          Inl e \<Rightarrow> Inl e
        | Inr vh \<Rightarrow>
          (case current_note s of
             None \<Rightarrow> Inl TypeError
           | Some cur \<Rightarrow>
             (case set_last (np_roll_left (note_history s)) (int cur) of
                Inl e \<Rightarrow> Inl e
              | Inr nh \<Rightarrow>
                (let s1 = s\<lparr>velocity_history := vh, note_history := nh\<rparr>;
                     cnv = current_note_velocities vh nh (int cur)
                 in if length cnv > 0
                    then Inr (s1\<lparr>stats_of := \<lparr>mean = np_mean cnv, std_dev = np_std cnv,
                                              min_v = np_min cnv, max_v = np_max cnv\<rparr>\<rparr>)
                    else Inr s1))))
     else Inr s)"

definition process_midi :: "midi_event list \<Rightarrow> visualizer \<Rightarrow> py_error + visualizer" where
  "process_midi events s = update_history (fold handle_event events s)"

subsection \<open>The "clear history" key of \<open>run\<close>\<close>

definition clear :: "visualizer \<Rightarrow> visualizer" where
  "clear s =
    s\<lparr>velocity_history := replicate HISTORY_LENGTH 0,
      note_history := replicate HISTORY_LENGTH (- 1),
      note_colors := Map.empty, color_index := 0\<rparr>"

subsection \<open>The consistency score of \<open>render\<close>\<close>

definition consistency_score :: "stats \<Rightarrow> real" where
  "consistency_score st = (if mean st > 0 then 100 - min 100 (std_dev st * 5) else 0)"

text \<open>The score as the specification words it.\<close>

definition spec_consistency_score :: "real \<Rightarrow> real \<Rightarrow> real" where
  "spec_consistency_score m sd = (if m > 0 then max 0 (100 - 5 * sd) else 0)"

subsection \<open>float64 rounding\<close>

text \<open>
  A float64 has 53 significant bits. A non-zero real \<open>x\<close> with \<open>2 ^ e \<le> \<bar>x\<bar> < 2 ^ (e + 1)\<close>
  is rounded to the nearest whole multiple of \<open>2 ^ (e - 52)\<close>, and of two nearest multiples
  the one with the even quotient is taken. \<open>rhe\<close> rounds a real to the nearest integer,
  ties to even; \<open>pow2 e\<close> is \<open>2 ^ e\<close> for an integer \<open>e\<close>; \<open>ilog2 x\<close> is the exponent \<open>e\<close> of a
  positive \<open>x\<close>, read off the bit length of \<open>\<lfloor>x\<rfloor>\<close> when \<open>x \<ge> 1\<close> and of \<open>\<lceil>1 / x\<rceil> - 1\<close> when
  \<open>x < 1\<close>; \<open>fl64\<close> rounds a real to 53 significant bits. A float64 operation of the source
  is \<open>fl64\<close> of the exact result of the operation on its float64 operands.

  The exponent range of float64 (overflow from \<open>2 ^ 1024\<close> on, subnormal numbers below
  \<open>2 ^ (- 1022)\<close>) is not modelled. On a buffer of MIDI velocities (whole numbers from 0 to
  127) every non-zero value that the smoother rounds lies between \<open>1 / 32\<close> and \<open>512\<close>
  (lemmas \<open>interp_vel_operands\<close>, \<open>min_transition_velocity_operands\<close>,
  \<open>mean_of_three_operands\<close> and \<open>velocity_smoothed_range\<close>).
\<close>

definition rhe :: "real \<Rightarrow> int" where
  "rhe y =
    (let f = \<lfloor>y\<rfloor>; r = y - of_int f
     in if r < 1 / 2 then f else if 1 / 2 < r then f + 1 else if even f then f else f + 1)"

definition pow2 :: "int \<Rightarrow> real" where
  "pow2 e = (if 0 \<le> e then 2 ^ nat e else 1 / 2 ^ nat (- e))"

definition ilog2 :: "real \<Rightarrow> int" where
  "ilog2 x = (if 1 \<le> x then bitlen \<lfloor>x\<rfloor> - 1 else - bitlen (\<lceil>1 / x\<rceil> - 1))"

definition fl64 :: "real \<Rightarrow> real" where
  "fl64 x =
    (if x = 0 then 0
     else (let e = ilog2 \<bar>x\<bar>; q = pow2 (e - 52)
           in of_int (rhe (x / q)) * q))"

subsection \<open>The smoother of \<open>update_graph\<close>\<close>

definition gap_threshold :: nat where
  "gap_threshold = 20"

text \<open>\<open>np.where(velocity_history > 0)[0]\<close>: the indices of the anchors, ascending.\<close>

definition non_zero_indices :: "real list \<Rightarrow> nat list" where
  "non_zero_indices vh = filter (\<lambda>i. vh ! i > 0) [0..<length vh]"

text \<open>\<open>min(start_vel, end_vel) * 0.7\<close>; the literal \<open>0.7\<close> is the float64 nearest to 7/10.\<close>

definition min_transition_velocity :: "real \<Rightarrow> real \<Rightarrow> real" where
  "min_transition_velocity start_vel end_vel = fl64 (min start_vel end_vel * fl64 0.7)"

text \<open>
  \<open>alpha = j / (gap_size + 1)\<close> and \<open>start_vel * (1 - alpha) + end_vel * alpha\<close>: one division,
  one subtraction, two products and one sum, each rounded.
\<close>

definition interp_vel :: "real \<Rightarrow> real \<Rightarrow> nat \<Rightarrow> nat \<Rightarrow> real" where
  "interp_vel start_vel end_vel gap_size j =
    (let alpha = fl64 (real j / real (gap_size + 1))
     in fl64 (fl64 (start_vel * fl64 (1 - alpha)) + fl64 (end_vel * alpha)))"

text \<open>One pass of the inner loop body, for one \<open>j\<close> of \<open>range(1, gap_size + 1)\<close>.\<close>

definition fill_step ::
  "real list \<Rightarrow> int list \<Rightarrow> nat \<Rightarrow> nat \<Rightarrow> nat \<Rightarrow> real list \<times> int list \<Rightarrow> real list \<times> int list"
where
  "fill_step vh nh start_idx end_idx j acc =
    (let gap_size = end_idx - start_idx - 1;
         start_vel = vh ! start_idx; end_vel = vh ! end_idx;
         start_note = nh ! start_idx; end_note = nh ! end_idx;
         interp_idx = start_idx + j;
         vs = (fst acc)[interp_idx :=
                max (interp_vel start_vel end_vel gap_size j)
                    (min_transition_velocity start_vel end_vel)];
         ns = (if end_note \<ge> 0 then (snd acc)[interp_idx := end_note]
               else if start_note \<ge> 0 then (snd acc)[interp_idx := start_note]
               else snd acc)
     in (vs, ns))"

text \<open>The body of the outer loop, for one pair of consecutive anchors.\<close>

definition bridge_pair ::
  "real list \<Rightarrow> int list \<Rightarrow> nat \<Rightarrow> nat \<Rightarrow> real list \<times> int list \<Rightarrow> real list \<times> int list"
where
  "bridge_pair vh nh start_idx end_idx acc =
    (let gap_size = end_idx - start_idx - 1
     in if gap_size \<le> gap_threshold \<and> gap_size > 0
        then fold (fill_step vh nh start_idx end_idx) [1..<gap_size + 1] acc
        else acc)"

text \<open>The outer loop over \<open>i\<close>, with \<open>non_zero_indices[i]\<close> and \<open>non_zero_indices[i + 1]\<close>.\<close>

fun bridge_loop ::
  "real list \<Rightarrow> int list \<Rightarrow> nat list \<Rightarrow> real list \<times> int list \<Rightarrow> real list \<times> int list"
where
  "bridge_loop vh nh (a # b # rest) acc = bridge_loop vh nh (b # rest) (bridge_pair vh nh a b acc)"
| "bridge_loop vh nh _ acc = acc"

definition bridge :: "real list \<Rightarrow> int list \<Rightarrow> real list \<times> int list" where
  "bridge vh nh =
    (let nzi = non_zero_indices vh
     in if length nzi > 1 then bridge_loop vh nh nzi (vh, nh) else (vh, nh))"

definition velocity_smoothed :: "real list \<Rightarrow> int list \<Rightarrow> real list" where
  "velocity_smoothed vh nh = fst (bridge vh nh)"

definition note_history_smoothed :: "real list \<Rightarrow> int list \<Rightarrow> int list" where
  "note_history_smoothed vh nh = snd (bridge vh nh)"

text \<open>
  The moving average over 3 points: it reads the bridged copy and writes a second copy.
  \<open>(x + y + z) / 3\<close> is evaluated from left to right: two sums and one division, each
  rounded.
\<close>

definition mean_of_three :: "real \<Rightarrow> real \<Rightarrow> real \<Rightarrow> real" where
  "mean_of_three x y z = fl64 (fl64 (fl64 (x + y) + z) / 3)"

definition average_step :: "real list \<Rightarrow> nat \<Rightarrow> real list \<Rightarrow> real list" where
  "average_step sm i fin =
    (if sm ! i > 0 then fin[i := mean_of_three (sm ! (i - 1)) (sm ! i) (sm ! (i + 1))] else fin)"

definition moving_average :: "real list \<Rightarrow> real list" where
  "moving_average sm = fold (average_step sm) [1..<length sm - 1] sm"

definition velocity_final :: "real list \<Rightarrow> int list \<Rightarrow> real list" where
  "velocity_final vh nh = moving_average (velocity_smoothed vh nh)"

subsection \<open>Predicates used to state the properties\<close>

text \<open>
  Two anchors (samples with velocity \<open>> 0\<close>) at \<open>a < b\<close> with nothing but zero samples
  between them: a pair of consecutive entries of \<open>non_zero_indices\<close>.
\<close>

definition consecutive_anchors :: "real list \<Rightarrow> nat \<Rightarrow> nat \<Rightarrow> bool" where
  "consecutive_anchors vh a b \<longleftrightarrow>
     a < b \<and> b < length vh \<and> vh ! a > 0 \<and> vh ! b > 0 \<and> list_all (\<lambda>j. vh ! j = 0) [a + 1..<b]"

text \<open>
  A buffer of MIDI velocities: every sample is a whole number from 0 to 127. The properties
  that speak of rounded values are stated for such buffers, on which \<open>fl64\<close> is the float64
  arithmetic of the source.
\<close>

definition midi_values :: "real list \<Rightarrow> bool" where
  "midi_values vh \<longleftrightarrow> list_all (\<lambda>v. 0 \<le> v \<and> v \<le> 127 \<and> of_int \<lfloor>v\<rfloor> = v) vh"

text \<open>
  What every reachable state satisfies: both histories have the fixed length, an active
  note has a note number, and no stored velocity is negative.
\<close>

definition state_ok :: "visualizer \<Rightarrow> bool" where
  "state_ok s \<longleftrightarrow>
     length (velocity_history s) = HISTORY_LENGTH \<and> length (note_history s) = HISTORY_LENGTH
     \<and> (if is_note_active s then current_note s \<noteq> None else True)
     \<and> list_all (\<lambda>v. 0 \<le> v) (velocity_history s)"

text \<open>
  The test of the note-on branch, the notes of the note-on events of a batch, and the
  order in which notes are met for the first time.
\<close>

definition is_note_on :: "midi_event \<Rightarrow> bool" where
  "is_note_on ev \<longleftrightarrow> status_of ev = 144 \<and> snd (snd ev) > 0"

definition note_on_notes :: "midi_event list \<Rightarrow> nat list" where
  "note_on_notes evs = map (\<lambda>ev. fst (snd ev)) (filter is_note_on evs)"

fun seen_order :: "nat list \<Rightarrow> nat list \<Rightarrow> nat list" where
  "seen_order acc [] = acc"
| "seen_order acc (n # ns) = seen_order (if n \<in> set acc then acc else acc @ [n]) ns"

text \<open>
  The colour table follows the order \<open>ds\<close> in which notes were first met: the \<open>k\<close>-th note
  of \<open>ds\<close> has the palette entry \<open>k mod 12\<close>, and the round-robin index is the number of
  notes met.
\<close>

definition colors_follow :: "visualizer \<Rightarrow> nat list \<Rightarrow> bool" where
  "colors_follow s ds \<longleftrightarrow>
     distinct ds \<and> dom (note_colors s) = set ds \<and> color_index s = length ds
     \<and> (\<forall>k<length ds. note_colors s (ds ! k) = Some (NOTE_COLORS ! (k mod length NOTE_COLORS)))"

subsection \<open>Example states and inputs\<close>

text \<open>
  The state after the batch "note-on 60, velocity 80" and one history update from \<open>init\<close>;
  the state after the next batch "note-on 62, velocity 50; controller 7 = 0" before the
  history update, and after it.
\<close>

definition example_after_first_tick :: visualizer where
  "example_after_first_tick =
     init\<lparr>current_note := Some 60, current_velocity := 80, is_note_active := True,
          note_colors := [60 \<mapsto> (65, 156, 255)], color_index := 1,
          velocity_history := replicate 299 0 @ [80],
          note_history := replicate 299 (- 1) @ [60],
          stats_of := \<lparr>mean = 80, std_dev = 0, min_v = 80, max_v = 80\<rparr>\<rparr>"

definition example_before_second_tick :: visualizer where
  "example_before_second_tick =
     example_after_first_tick\<lparr>current_note := Some 62, current_velocity := 0,
          note_colors := [60 \<mapsto> (65, 156, 255), 62 \<mapsto> (255, 100, 100)], color_index := 2,
          cc_values := [7 \<mapsto> 0]\<rparr>"

definition example_after_second_tick :: visualizer where
  "example_after_second_tick =
     example_before_second_tick\<lparr>velocity_history := replicate 298 0 @ [80, 0],
          note_history := replicate 298 (- 1) @ [60, 62]\<rparr>"

text \<open>
  A state whose history ends with one sample of note 62 and two samples (60 and 70) of the
  active note 60, with current velocity 80.
\<close>

definition example_three_samples :: visualizer where
  "example_three_samples =
     init\<lparr>current_note := Some 60, current_velocity := 80, is_note_active := True,
          velocity_history := replicate 297 0 @ [50, 60, 70],
          note_history := replicate 297 (- 1) @ [62, 60, 60]\<rparr>"

text \<open>
  Note-on events for thirteen distinct notes, with a note-off and a repeated note-on among them.
\<close>

definition example_thirteen_notes :: "midi_event list" where
  "example_thirteen_notes =
     [(144, 60, 100), (144, 61, 100), (144, 62, 100), (144, 63, 100), (144, 64, 100),
      (144, 65, 100), (128, 65, 0), (144, 66, 100), (144, 67, 100), (144, 68, 100),
      (144, 69, 100), (144, 70, 100), (144, 71, 100), (144, 60, 90), (144, 72, 100)]"

section \<open>Lemmas about float64 rounding\<close>

lemma rhe_error: "\<bar>of_int (rhe y) - y\<bar> \<le> 1 / 2"
  unfolding rhe_def Let_def by (auto split: if_splits)

lemma rhe_near:
  assumes "\<bar>y - of_int n\<bar> < 1 / 2"
  shows "rhe y = n"
proof (cases "of_int n \<le> y")
  case True
  then have f: "\<lfloor>y\<rfloor> = n" using assms by (intro floor_unique) auto
  show ?thesis using assms True by (simp add: rhe_def f)
next
  case False
  then have f: "\<lfloor>y\<rfloor> = n - 1" using assms by (intro floor_unique) auto
  show ?thesis using assms False by (simp add: rhe_def f)
qed

lemma rhe_tie:
  assumes "\<bar>y - of_int n\<bar> = 1 / 2" and "even n"
  shows "rhe y = n"
proof (cases "of_int n \<le> y")
  case True
  then have y: "y = of_int n + 1 / 2" using assms(1) by simp
  have f: "\<lfloor>y\<rfloor> = n" unfolding y by (intro floor_unique) auto
  show ?thesis using assms(2) by (simp add: rhe_def f) (simp add: y)
next
  case False
  then have y: "y = of_int n - 1 / 2" using assms(1) by simp
  have f: "\<lfloor>y\<rfloor> = n - 1" unfolding y by (intro floor_unique) auto
  show ?thesis using assms(2) by (simp add: rhe_def f) (simp add: y)
qed

text \<open>\<open>pow2\<close> is the power of two and \<open>ilog2\<close> the exponent: \<open>2 ^ ilog2 x \<le> x < 2 ^ (ilog2 x + 1)\<close>.\<close>

lemma pow2_powr: "pow2 e = 2 powr (of_int e)"
  by (simp add: pow2_def powr_real_of_int inverse_eq_divide)

lemma powr2_nonneg: "0 \<le> k \<Longrightarrow> 2 powr (of_int k) = (2::real) ^ nat k"
  by (simp add: powr_real_of_int)

lemma powr2_nonpos: "k \<le> 0 \<Longrightarrow> 2 powr (of_int k) = 1 / (2::real) ^ nat (- k)"
  by (cases "k = 0") (simp_all add: powr_real_of_int inverse_eq_divide)

lemma ilog2_floor_log:
  assumes "0 < x"
  shows "ilog2 x = \<lfloor>log 2 x\<rfloor>"
proof -
  have "2 powr (of_int (ilog2 x)) \<le> x \<and> x < 2 powr (of_int (ilog2 x + 1))"
  proof (cases "1 \<le> x")
    case True
    define n where "n = \<lfloor>x\<rfloor>"
    have n: "0 < n" using True by (simp add: n_def)
    note bb = bitlen_bounds [OF n]
    have b1: "0 \<le> bitlen n - 1" "0 \<le> bitlen n - 1 + 1"
      using n bitlen_nonneg [of n] bitlen_eq_zero_iff [of n] by linarith+
    have e: "ilog2 x = bitlen n - 1" using True by (simp add: ilog2_def n_def)
    have "(2::real) ^ nat (bitlen n - 1) \<le> of_int n"
      using bb by (metis of_int_le_iff of_int_numeral of_int_power)
    also have "\<dots> \<le> x" by (simp add: n_def)
    finally have lo: "2 powr (of_int (ilog2 x)) \<le> x"
      by (simp only: e powr2_nonneg [OF b1(1)])
    have "n + 1 \<le> 2 ^ nat (bitlen n)" using bb by simp
    then have "of_int (n + 1) \<le> (2::real) ^ nat (bitlen n)"
      by (metis of_int_le_iff of_int_numeral of_int_power)
    moreover have "x < of_int (n + 1)" by (simp add: n_def)
    ultimately have "x < 2 ^ nat (bitlen n)" by linarith
    moreover have "nat (bitlen n - 1 + 1) = nat (bitlen n)" by simp
    ultimately have hi: "x < 2 powr (of_int (ilog2 x + 1))"
      by (simp only: e powr2_nonneg [OF b1(2)])
    show ?thesis using lo hi by simp
  next
    case False
    define m where "m = \<lceil>1 / x\<rceil> - 1"
    have y: "1 < 1 / x" using False assms by simp
    then have m: "0 < m" by (simp add: m_def less_ceiling_iff)
    note bb = bitlen_bounds [OF m]
    have b1: "- bitlen m \<le> 0" "- bitlen m + 1 \<le> 0"
      using m bitlen_nonneg [of m] bitlen_eq_zero_iff [of m] by linarith+
    have e: "ilog2 x = - bitlen m" using False by (simp add: ilog2_def m_def)
    have "m + 1 \<le> 2 ^ nat (bitlen m)" using bb by simp
    then have "of_int (m + 1) \<le> (2::real) ^ nat (bitlen m)"
      by (metis of_int_le_iff of_int_numeral of_int_power)
    moreover have "1 / x \<le> of_int (m + 1)" by (simp add: m_def)
    ultimately have "1 / x \<le> 2 ^ nat (bitlen m)" by linarith
    then have "1 / 2 ^ nat (bitlen m) \<le> x"
      using assms by (simp add: field_simps)
    moreover have "nat (- (- bitlen m)) = nat (bitlen m)" by simp
    ultimately have lo: "2 powr (of_int (ilog2 x)) \<le> x"
      by (simp only: e powr2_nonpos [OF b1(1)])
    have "(2::real) ^ nat (bitlen m - 1) \<le> of_int m"
      using bb by (metis of_int_le_iff of_int_numeral of_int_power)
    moreover have "of_int m < 1 / x" using ceiling_correct [of "1 / x"] by (simp add: m_def)
    ultimately have "2 ^ nat (bitlen m - 1) < 1 / x" by linarith
    then have "x < 1 / 2 ^ nat (bitlen m - 1)"
      using assms by (simp add: field_simps)
    moreover have "nat (- (- bitlen m + 1)) = nat (bitlen m - 1)" by simp
    ultimately have hi: "x < 2 powr (of_int (ilog2 x + 1))"
      by (simp only: e powr2_nonpos [OF b1(2)])
    show ?thesis using lo hi by simp
  qed
  then show ?thesis
    using floor_log_eq_powr_iff [of x 2 "ilog2 x"] assms by simp
qed

lemma fl64_log:
  "fl64 x =
    (if x = 0 then 0
     else (let e = \<lfloor>log 2 \<bar>x\<bar>\<rfloor>; q = 2 powr (of_int e - 52)
           in of_int (rhe (x / q)) * q))"
  by (simp add: fl64_def ilog2_floor_log pow2_powr Let_def)

text \<open>The relative error of one rounding is at most \<open>2 ^ (- 53)\<close>.\<close>

lemma fl64_error: "\<bar>fl64 x - x\<bar> \<le> \<bar>x\<bar> / 2 ^ 53"
proof (cases "x = 0")
  case True
  then show ?thesis by (simp add: fl64_def)
next
  case False
  define e where "e = \<lfloor>log 2 \<bar>x\<bar>\<rfloor>"
  define q :: real where "q = 2 powr (of_int e - 52)"
  have ax: "0 < \<bar>x\<bar>" using False by simp
  have "2 powr (of_int e) \<le> \<bar>x\<bar>"
    using floor_log_eq_powr_iff [OF ax, of 2 e] by (simp add: e_def)
  moreover have "q = 2 powr (of_int e) / 2 ^ 52"
    by (simp add: q_def powr_diff powr_realpow [symmetric])
  ultimately have qx: "q * 2 ^ 52 \<le> \<bar>x\<bar>" by simp
  have q0: "0 < q" by (simp add: q_def)
  have "fl64 x - x = (of_int (rhe (x / q)) - x / q) * q"
    using False q0 by (simp add: fl64_log e_def q_def Let_def algebra_simps)
  then have "\<bar>fl64 x - x\<bar> = \<bar>of_int (rhe (x / q)) - x / q\<bar> * q"
    using q0 by (simp add: abs_mult)
  also have "\<dots> \<le> 1 / 2 * q"
    using rhe_error [of "x / q"] q0 by (intro mult_right_mono) simp_all
  also have "\<dots> \<le> \<bar>x\<bar> / 2 ^ 53"
    using qx by simp
  finally show ?thesis .
qed

lemma fl64_abs_error: "0 \<le> x \<Longrightarrow> x \<le> c \<Longrightarrow> \<bar>fl64 x - x\<bar> \<le> c / 2 ^ 53"
proof -
  assume "0 \<le> x" "x \<le> c"
  then have "\<bar>x\<bar> / 2 ^ 53 \<le> c / 2 ^ 53" by (simp add: divide_right_mono)
  then show ?thesis using fl64_error [of x] by linarith
qed

lemma fl64_ge: "0 \<le> x \<Longrightarrow> x * (1 - 1 / 2 ^ 53) \<le> fl64 x"
proof -
  assume "0 \<le> x"
  then have "\<bar>fl64 x - x\<bar> \<le> x / 2 ^ 53" using fl64_error [of x] by simp
  then have "x - x / 2 ^ 53 \<le> fl64 x" by linarith
  then show ?thesis by (simp add: algebra_simps)
qed

lemma fl64_le: "0 \<le> x \<Longrightarrow> fl64 x \<le> x * (1 + 1 / 2 ^ 53)"
proof -
  assume "0 \<le> x"
  then have "\<bar>fl64 x - x\<bar> \<le> x / 2 ^ 53" using fl64_error [of x] by simp
  then have "fl64 x \<le> x + x / 2 ^ 53" by linarith
  then show ?thesis by (simp add: algebra_simps)
qed

lemma fl64_nonneg: "0 \<le> x \<Longrightarrow> 0 \<le> fl64 x"
proof -
  assume x: "0 \<le> x"
  then have "0 \<le> x * (1 - 1 / 2 ^ 53)" by simp
  then show ?thesis using fl64_ge [OF x] by linarith
qed

lemma fl64_pos: "0 < x \<Longrightarrow> 0 < fl64 x"
proof -
  assume x: "0 < x"
  then have "0 < x * (1 - 1 / 2 ^ 53)" by simp
  then show ?thesis using fl64_ge [of x] x by linarith
qed

lemma fl64_range:
  assumes "lo \<le> x" and "x \<le> hi" and "0 \<le> lo"
  shows "lo * (1 - 1 / 2 ^ 53) \<le> fl64 x" and "fl64 x \<le> hi * (1 + 1 / 2 ^ 53)"
proof -
  have x: "0 \<le> x" using assms by simp
  have "lo * (1 - 1 / 2 ^ 53) \<le> x * (1 - 1 / 2 ^ 53)"
    using assms(1) by (intro mult_right_mono) simp_all
  then show "lo * (1 - 1 / 2 ^ 53) \<le> fl64 x" using fl64_ge [OF x] by linarith
  have "x * (1 + 1 / 2 ^ 53) \<le> hi * (1 + 1 / 2 ^ 53)"
    using assms(2) by (intro mult_right_mono) simp_all
  then show "fl64 x \<le> hi * (1 + 1 / 2 ^ 53)" using fl64_le [OF x] by linarith
qed

text \<open>
  How a rounding is computed: scale \<open>x\<close> by the power of two that brings it between
  \<open>2 ^ 52\<close> and \<open>2 ^ 53\<close>, round to an integer, scale back.
\<close>

lemma fl64_scaled:
  assumes "0 < x" and "2 ^ 52 \<le> x * 2 ^ k" and "x * 2 ^ k < 2 ^ 53"
  shows "fl64 x = of_int (rhe (x * 2 ^ k)) / 2 ^ k"
proof -
  have "2 powr (52 - real k) \<le> x \<and> x < 2 powr (52 - real k + 1)"
    using assms(2,3) by (simp add: powr_diff powr_add powr_realpow [symmetric] field_simps)
  then have "2 powr (of_int (52 - int k)) \<le> x \<and> x < 2 powr (of_int (52 - int k + 1))"
    by simp
  then have e: "\<lfloor>log 2 \<bar>x\<bar>\<rfloor> = 52 - int k"
    using floor_log_eq_powr_iff [of x 2 "52 - int k"] assms(1) by simp
  have q: "(2::real) powr (of_int (52 - int k) - 52) = 1 / 2 ^ k"
    by (simp add: powr_minus powr_realpow [symmetric] field_simps)
  show ?thesis
    using assms(1) unfolding fl64_log e Let_def q by simp
qed

lemma fl64_near:
  assumes "0 < x" and "2 ^ 52 \<le> x * 2 ^ k" and "x * 2 ^ k < 2 ^ 53"
    and "\<bar>x * 2 ^ k - of_int n\<bar> < 1 / 2" and "r = of_int n / 2 ^ k"
  shows "fl64 x = r"
  using fl64_scaled [OF assms(1-3)] rhe_near [OF assms(4)] assms(5) by simp

lemma fl64_tie:
  assumes "0 < x" and "2 ^ 52 \<le> x * 2 ^ k" and "x * 2 ^ k < 2 ^ 53"
    and "\<bar>x * 2 ^ k - of_int n\<bar> = 1 / 2" and "even n" and "r = of_int n / 2 ^ k"
  shows "fl64 x = r"
  using fl64_scaled [OF assms(1-3)] rhe_tie [OF assms(4,5)] assms(6) by simp

section \<open>Lemmas about the smoother\<close>

subsection \<open>Each pass, index by index\<close>

lemma length_fst_fill_step: "length (fst (fill_step vh nh s e j acc)) = length (fst acc)"
  by (simp add: fill_step_def Let_def)

lemma fst_fill_step_nth:
  "k < length (fst acc) \<Longrightarrow>
   fst (fill_step vh nh s e j acc) ! k =
     (if k = s + j
      then max (interp_vel (vh ! s) (vh ! e) (e - s - 1) j) (min_transition_velocity (vh ! s) (vh ! e))
      else fst acc ! k)"
  by (simp add: fill_step_def Let_def)

lemma length_fst_fold_fill_step:
  "length (fst (fold (fill_step vh nh s e) js acc)) = length (fst acc)"
  by (induction js arbitrary: acc) (simp_all add: length_fst_fill_step)

lemma fst_fold_fill_step_nth:
  "k < length (fst acc) \<Longrightarrow>
   fst (fold (fill_step vh nh s e) js acc) ! k =
     (if s \<le> k \<and> k - s \<in> set js
      then max (interp_vel (vh ! s) (vh ! e) (e - s - 1) (k - s))
               (min_transition_velocity (vh ! s) (vh ! e))
      else fst acc ! k)"
proof (induction js arbitrary: acc)
  case Nil
  then show ?case by simp
next
  case (Cons j js)
  have len: "k < length (fst (fill_step vh nh s e j acc))"
    using Cons.prems by (simp add: length_fst_fill_step)
  show ?case
    using Cons.IH [OF len] Cons.prems
    by (auto simp: fst_fill_step_nth)
qed

lemma length_fst_bridge_pair: "length (fst (bridge_pair vh nh s e acc)) = length (fst acc)"
  by (simp add: bridge_pair_def Let_def length_fst_fold_fill_step)

lemma fst_bridge_pair_nth:
  "k < length (fst acc) \<Longrightarrow>
   fst (bridge_pair vh nh s e acc) ! k =
     (if e - s - 1 \<le> gap_threshold \<and> s < k \<and> k < e
      then max (interp_vel (vh ! s) (vh ! e) (e - s - 1) (k - s))
               (min_transition_velocity (vh ! s) (vh ! e))
      else fst acc ! k)"
  by (auto simp: bridge_pair_def Let_def fst_fold_fill_step_nth)

lemma length_fst_bridge_loop: "length (fst (bridge_loop vh nh xs acc)) = length (fst acc)"
  by (induction vh nh xs acc rule: bridge_loop.induct) (simp_all add: length_fst_bridge_pair)

lemma bridge_loop_above:
  "\<forall>x\<in>set xs. k \<le> x \<Longrightarrow> k < length (fst acc) \<Longrightarrow>
   fst (bridge_loop vh nh xs acc) ! k = fst acc ! k"
  by (induction vh nh xs acc rule: bridge_loop.induct)
     (simp_all add: length_fst_bridge_pair fst_bridge_pair_nth)

lemma bridge_loop_below:
  "\<forall>x\<in>set xs. x \<le> k \<Longrightarrow> k < length (fst acc) \<Longrightarrow>
   fst (bridge_loop vh nh xs acc) ! k = fst acc ! k"
  by (induction vh nh xs acc rule: bridge_loop.induct)
     (simp_all add: length_fst_bridge_pair fst_bridge_pair_nth)

lemma bridge_loop_append:
  "bridge_loop vh nh (xs @ y # ys) acc = bridge_loop vh nh (y # ys) (bridge_loop vh nh (xs @ [y]) acc)"
proof (induction xs arbitrary: acc)
  case Nil
  then show ?case by simp
next
  case (Cons x xs)
  then show ?case by (cases xs) simp_all
qed

lemma length_velocity_smoothed: "length (velocity_smoothed vh nh) = length vh"
  by (simp add: velocity_smoothed_def bridge_def Let_def length_fst_bridge_loop)

lemma velocity_smoothed_loop:
  "velocity_smoothed vh nh = fst (bridge_loop vh nh (non_zero_indices vh) (vh, nh))"
proof (cases "non_zero_indices vh")
  case Nil
  then show ?thesis by (simp add: velocity_smoothed_def bridge_def)
next
  case (Cons x xs)
  then show ?thesis by (cases xs) (simp_all add: velocity_smoothed_def bridge_def)
qed

lemma length_average_step: "length (average_step sm i fin) = length fin"
  by (simp add: average_step_def)

lemma average_step_nth:
  "k < length fin \<Longrightarrow>
   average_step sm i fin ! k =
     (if k = i \<and> sm ! k > 0 then mean_of_three (sm ! (k - 1)) (sm ! k) (sm ! (k + 1)) else fin ! k)"
  by (auto simp: average_step_def)

lemma length_fold_average_step: "length (fold (average_step sm) is fin) = length fin"
  by (induction "is" arbitrary: fin) (simp_all add: length_average_step)

lemma fold_average_step_nth:
  "k < length fin \<Longrightarrow>
   fold (average_step sm) is fin ! k =
     (if k \<in> set is \<and> sm ! k > 0 then mean_of_three (sm ! (k - 1)) (sm ! k) (sm ! (k + 1)) else fin ! k)"
proof (induction "is" arbitrary: fin)
  case Nil
  then show ?case by simp
next
  case (Cons i "is")
  have len: "k < length (average_step sm i fin)"
    using Cons.prems by (simp add: length_average_step)
  show ?case
    using Cons.IH [OF len] Cons.prems by (auto simp: average_step_nth)
qed

lemma length_moving_average: "length (moving_average sm) = length sm"
  by (simp add: moving_average_def length_fold_average_step)

lemma moving_average_nth:
  "k < length sm \<Longrightarrow>
   moving_average sm ! k =
     (if 0 < k \<and> k + 1 < length sm \<and> sm ! k > 0
      then mean_of_three (sm ! (k - 1)) (sm ! k) (sm ! (k + 1)) else sm ! k)"
  by (auto simp: moving_average_def fold_average_step_nth)

subsection \<open>Where the anchors are\<close>

lemma non_zero_indices_split:
  assumes "a < length vh"
  shows "non_zero_indices vh =
           filter (\<lambda>i. vh ! i > 0) [0..<a] @ filter (\<lambda>i. vh ! i > 0) [a..<length vh]"
proof -
  have "[0..<length vh] = [0..<a] @ [a..<length vh]"
    using upt_add_eq_append [of 0 a "length vh - a"] assms by simp
  then show ?thesis by (simp add: non_zero_indices_def)
qed

lemma velocity_smoothed_anchor:
  assumes k: "k < length vh" and pos: "vh ! k > 0"
  shows "velocity_smoothed vh nh ! k = vh ! k"
proof -
  define xs where "xs = filter (\<lambda>i. vh ! i > 0) [0..<k]"
  define ys where "ys = filter (\<lambda>i. vh ! i > 0) [Suc k..<length vh]"
  have "[k..<length vh] = k # [Suc k..<length vh]"
    using k by (rule upt_conv_Cons)
  then have nzi: "non_zero_indices vh = xs @ k # ys"
    using non_zero_indices_split [OF k] pos by (simp add: xs_def ys_def)
  have below: "\<forall>x\<in>set (xs @ [k]). x \<le> k" by (auto simp: xs_def)
  have above: "\<forall>x\<in>set (k # ys). k \<le> x" by (auto simp: ys_def)
  have len: "k < length (fst (bridge_loop vh nh (xs @ [k]) (vh, nh)))"
    using k by (simp add: length_fst_bridge_loop)
  have "velocity_smoothed vh nh ! k =
          fst (bridge_loop vh nh (k # ys) (bridge_loop vh nh (xs @ [k]) (vh, nh))) ! k"
    by (simp only: velocity_smoothed_loop nzi bridge_loop_append [of vh nh xs k ys])
  also have "\<dots> = fst (bridge_loop vh nh (xs @ [k]) (vh, nh)) ! k"
    using bridge_loop_above [OF above len] .
  also have "\<dots> = vh ! k"
    using bridge_loop_below [OF below, of "(vh, nh)" vh nh] k by simp
  finally show ?thesis .
qed

lemma velocity_smoothed_no_left:
  assumes k: "k < length vh" and none: "\<And>j. j \<le> k \<Longrightarrow> \<not> vh ! j > 0"
  shows "velocity_smoothed vh nh ! k = vh ! k"
proof -
  have "filter (\<lambda>i. vh ! i > 0) [0..<k] = []"
    using none by (simp add: filter_empty_conv)
  then have nzi: "non_zero_indices vh = filter (\<lambda>i. vh ! i > 0) [k..<length vh]"
    using non_zero_indices_split [OF k] by simp
  have above: "\<forall>x\<in>set (non_zero_indices vh). k \<le> x"
    unfolding nzi by simp
  show ?thesis
    using bridge_loop_above [OF above, of "(vh, nh)" vh nh] k
    by (simp add: velocity_smoothed_loop)
qed

lemma velocity_smoothed_no_right:
  assumes k: "k < length vh" and none: "\<And>j. k \<le> j \<Longrightarrow> j < length vh \<Longrightarrow> \<not> vh ! j > 0"
  shows "velocity_smoothed vh nh ! k = vh ! k"
proof -
  have "filter (\<lambda>i. vh ! i > 0) [k..<length vh] = []"
    using none by (simp add: filter_empty_conv)
  then have nzi: "non_zero_indices vh = filter (\<lambda>i. vh ! i > 0) [0..<k]"
    using non_zero_indices_split [OF k] by simp
  have below: "\<forall>x\<in>set (non_zero_indices vh). x \<le> k"
    unfolding nzi by auto
  show ?thesis
    using bridge_loop_below [OF below, of "(vh, nh)" vh nh] k
    by (simp add: velocity_smoothed_loop)
qed

lemma velocity_smoothed_gap:
  assumes ab: "a < b" and b: "b < length vh"
    and pa: "vh ! a > 0" and pb: "vh ! b > 0"
    and zeros: "\<And>j. a < j \<Longrightarrow> j < b \<Longrightarrow> \<not> vh ! j > 0"
    and k: "a < k" "k < b"
  shows "velocity_smoothed vh nh ! k =
           (if b - a - 1 \<le> gap_threshold
            then max (interp_vel (vh ! a) (vh ! b) (b - a - 1) (k - a))
                     (min_transition_velocity (vh ! a) (vh ! b))
            else vh ! k)"
proof -
  define xs where "xs = filter (\<lambda>i. vh ! i > 0) [0..<a]"
  define ys where "ys = filter (\<lambda>i. vh ! i > 0) [Suc b..<length vh]"
  have a: "a < length vh" using ab b by simp
  have mid: "filter (\<lambda>i. vh ! i > 0) [Suc a..<b] = []"
    using zeros by (simp add: filter_empty_conv)
  have "[a..<length vh] = a # [Suc a..<b] @ b # [Suc b..<length vh]"
  proof -
    have "[a..<length vh] = a # [Suc a..<length vh]"
      using a by (rule upt_conv_Cons)
    moreover have "[Suc a..<length vh] = [Suc a..<b] @ [b..<length vh]"
      using upt_add_eq_append [of "Suc a" b "length vh - b"] ab b by simp
    moreover have "[b..<length vh] = b # [Suc b..<length vh]"
      using b by (rule upt_conv_Cons)
    ultimately show ?thesis by simp
  qed
  then have nzi: "non_zero_indices vh = xs @ a # b # ys"
    using non_zero_indices_split [OF a] pa pb mid by (simp add: xs_def ys_def)
  have below: "\<forall>x\<in>set (xs @ [a]). x \<le> k" using k by (auto simp: xs_def)
  have above: "\<forall>x\<in>set (b # ys). k \<le> x" using k by (auto simp: ys_def)
  define acc1 where "acc1 = bridge_loop vh nh (xs @ [a]) (vh, nh)"
  have len1: "length (fst acc1) = length vh"
    by (simp add: acc1_def length_fst_bridge_loop)
  have k1: "k < length (fst acc1)" using k b len1 by simp
  have acc1_k: "fst acc1 ! k = vh ! k"
    unfolding acc1_def using bridge_loop_below [OF below, of "(vh, nh)" vh nh] k b by simp
  have k2: "k < length (fst (bridge_pair vh nh a b acc1))"
    using k1 by (simp add: length_fst_bridge_pair)
  have "bridge_loop vh nh (xs @ a # b # ys) (vh, nh) =
          bridge_loop vh nh (b # ys) (bridge_pair vh nh a b acc1)"
    unfolding acc1_def bridge_loop_append [of vh nh xs a "b # ys" "(vh, nh)"] by simp
  then have "velocity_smoothed vh nh ! k =
          fst (bridge_loop vh nh (b # ys) (bridge_pair vh nh a b acc1)) ! k"
    by (simp add: velocity_smoothed_loop nzi)
  also have "\<dots> = fst (bridge_pair vh nh a b acc1) ! k"
    using bridge_loop_above [OF above k2] .
  also have "\<dots> = (if b - a - 1 \<le> gap_threshold
            then max (interp_vel (vh ! a) (vh ! b) (b - a - 1) (k - a))
                     (min_transition_velocity (vh ! a) (vh ! b))
            else vh ! k)"
    using k by (simp add: fst_bridge_pair_nth [OF k1] acc1_k)
  finally show ?thesis .
qed

subsection \<open>Interpolation and the floor\<close>

lemma alpha_bounds:
  assumes "j \<le> gap_size" and "gap_size \<le> 20"
  shows "0 \<le> fl64 (real j / real (gap_size + 1))" and "fl64 (real j / real (gap_size + 1)) \<le> 1"
proof -
  let ?x = "real j / real (gap_size + 1)"
  have x0: "0 \<le> ?x" by simp
  show "0 \<le> fl64 ?x" by (rule fl64_nonneg [OF x0])
  have "real j * 21 \<le> 20 * real (gap_size + 1)"
  proof -
    have "j * 21 \<le> 20 * (gap_size + 1)" using assms by simp
    then show ?thesis by (metis of_nat_le_iff of_nat_mult of_nat_numeral)
  qed
  then have "?x \<le> 20 / 21" by (simp add: field_simps)
  then have "?x * (1 + 1 / 2 ^ 53) \<le> 20 / 21 * (1 + 1 / 2 ^ 53)"
    by (intro mult_right_mono) simp_all
  also have "\<dots> \<le> 1" by simp
  finally show "fl64 ?x \<le> 1" using fl64_le [OF x0] by linarith
qed

text \<open>Five roundings below the smaller anchor at most: three of them count.\<close>

lemma interp_vel_lower:
  assumes s: "0 < start_vel" and e: "0 < end_vel" and j: "j \<le> gap_size" and g: "gap_size \<le> 20"
  shows "min start_vel end_vel * (1 - 1 / 2 ^ 53) ^ 3 \<le> interp_vel start_vel end_vel gap_size j"
proof -
  define u :: real where "u = 1 - 1 / 2 ^ 53"
  define m where "m = min start_vel end_vel"
  define A where "A = fl64 (real j / real (gap_size + 1))"
  define B where "B = fl64 (1 - A)"
  define P where "P = fl64 (start_vel * B)"
  define Q where "Q = fl64 (end_vel * A)"
  have u: "0 \<le> u" "u \<le> 1" by (simp_all add: u_def)
  have m: "0 < m" "m \<le> start_vel" "m \<le> end_vel" using s e by (simp_all add: m_def)
  have A: "0 \<le> A" "A \<le> 1" unfolding A_def using alpha_bounds [OF j g] by simp_all
  have B1: "(1 - A) * u \<le> B" unfolding B_def u_def using fl64_ge [of "1 - A"] A by simp
  have B0: "0 \<le> B" unfolding B_def using fl64_nonneg [of "1 - A"] A by simp
  have mB: "m * ((1 - A) * u) \<le> start_vel * B"
    using m B1 B0 A u by (intro mult_mono) simp_all
  have "m * ((1 - A) * u) * u \<le> start_vel * B * u"
    using mB u(1) by (rule mult_right_mono)
  moreover have "start_vel * B * u \<le> P"
    unfolding P_def u_def using fl64_ge [of "start_vel * B"] s B0 by simp
  ultimately have P: "m * (1 - A) * u * u \<le> P" by (simp add: mult.assoc)
  have mA: "m * A \<le> end_vel * A" using m(3) A(1) by (rule mult_right_mono)
  have "m * A * u \<le> end_vel * A * u" using mA u(1) by (rule mult_right_mono)
  moreover have "end_vel * A * u \<le> Q"
    unfolding Q_def u_def using fl64_ge [of "end_vel * A"] e A by simp
  moreover have "m * A * u * u \<le> m * A * u * 1"
    using m A u by (intro mult_left_mono) simp_all
  ultimately have Q: "m * A * u * u \<le> Q" by simp
  have PQ0: "0 \<le> P + Q"
    unfolding P_def Q_def using fl64_nonneg [of "start_vel * B"] fl64_nonneg [of "end_vel * A"] s e A B0
    by simp
  have "m * u * u = m * (1 - A) * u * u + m * A * u * u" by (simp add: algebra_simps)
  then have "m * u * u \<le> P + Q" using P Q by linarith
  then have "m * u * u * u \<le> (P + Q) * u" using u(1) by (rule mult_right_mono)
  moreover have "(P + Q) * u \<le> fl64 (P + Q)"
    unfolding u_def using fl64_ge [OF PQ0] by simp
  ultimately have "m * u ^ 3 \<le> fl64 (P + Q)" by (simp add: power3_eq_cube mult.assoc)
  then show ?thesis
    by (simp add: interp_vel_def Let_def P_def Q_def B_def A_def m_def u_def)
qed

lemma min_transition_velocity_upper:
  assumes s: "0 < start_vel" and e: "0 < end_vel"
  shows "min_transition_velocity start_vel end_vel \<le> min start_vel end_vel * (7 / 10 * (1 + 1 / 2 ^ 53) ^ 2)"
    and "0 < min_transition_velocity start_vel end_vel"
proof -
  define m where "m = min start_vel end_vel"
  define c where "c = fl64 (7 / 10)"
  have m: "0 < m" using s e by (simp add: m_def)
  have c: "0 < c" "c \<le> 7 / 10 * (1 + 1 / 2 ^ 53)"
    unfolding c_def using fl64_pos [of "7 / 10"] fl64_le [of "7 / 10"] by simp_all
  have "fl64 (m * c) \<le> m * c * (1 + 1 / 2 ^ 53)"
    using fl64_le [of "m * c"] m c by simp
  also have "\<dots> \<le> m * (7 / 10 * (1 + 1 / 2 ^ 53)) * (1 + 1 / 2 ^ 53)"
    using m c by (intro mult_right_mono mult_left_mono) simp_all
  finally show "min_transition_velocity start_vel end_vel \<le> min start_vel end_vel * (7 / 10 * (1 + 1 / 2 ^ 53) ^ 2)"
    by (simp add: min_transition_velocity_def m_def c_def power2_eq_square mult.assoc)
  show "0 < min_transition_velocity start_vel end_vel"
    unfolding min_transition_velocity_def using fl64_pos [of "min start_vel end_vel * fl64 0.7"] m c
    by (simp add: m_def c_def)
qed

text \<open>The floor stays below the interpolated value, rounding included.\<close>

lemma floor_below_interp:
  assumes s: "0 < start_vel" and e: "0 < end_vel" and j: "j \<le> gap_size" and g: "gap_size \<le> 20"
  shows "min_transition_velocity start_vel end_vel \<le> interp_vel start_vel end_vel gap_size j"
proof -
  have m: "0 \<le> min start_vel end_vel" using s e by simp
  have "(7 / 10 * (1 + 1 / 2 ^ 53) ^ 2 :: real) \<le> (1 - 1 / 2 ^ 53) ^ 3" by (simp add: power_divide)
  then have "min start_vel end_vel * (7 / 10 * (1 + 1 / 2 ^ 53) ^ 2)
      \<le> min start_vel end_vel * (1 - 1 / 2 ^ 53) ^ 3"
    using m by (rule mult_left_mono)
  then show ?thesis
    using min_transition_velocity_upper(1) [OF s e] interp_vel_lower [OF s e j g] by linarith
qed

lemma interp_vel_near_min:
  assumes s: "0 < start_vel" and e: "0 < end_vel" and j: "j \<le> gap_size" and g: "gap_size \<le> 20"
  shows "min start_vel end_vel * (1 - 1 / 2 ^ 51) \<le> interp_vel start_vel end_vel gap_size j"
proof -
  have m: "0 \<le> min start_vel end_vel" using s e by simp
  have "(1 - 1 / 2 ^ 51 :: real) \<le> (1 - 1 / 2 ^ 53) ^ 3" by (simp add: power_divide)
  then have "min start_vel end_vel * (1 - 1 / 2 ^ 51) \<le> min start_vel end_vel * (1 - 1 / 2 ^ 53) ^ 3"
    using m by (rule mult_left_mono)
  then show ?thesis using interp_vel_lower [OF s e j g] by linarith
qed

text \<open>The rounded interpolation is close to the exact one.\<close>

lemma interp_vel_close:
  assumes s: "0 < start_vel" and e: "0 < end_vel" and j: "j \<le> gap_size" and g: "gap_size \<le> 20"
  shows "\<bar>interp_vel start_vel end_vel gap_size j
           - (start_vel * (1 - real j / real (gap_size + 1)) + end_vel * (real j / real (gap_size + 1)))\<bar>
         \<le> max start_vel end_vel / 2 ^ 49"
proof -
  define al where "al = real j / real (gap_size + 1)"
  define A where "A = fl64 al"
  define B where "B = fl64 (1 - A)"
  define P where "P = fl64 (start_vel * B)"
  define Q where "Q = fl64 (end_vel * A)"
  define R where "R = fl64 (P + Q)"
  define M where "M = max start_vel end_vel"
  have M: "start_vel \<le> M" "end_vel \<le> M" by (simp_all add: M_def)
  have al: "0 \<le> al" "al \<le> 1" using j by (simp_all add: al_def)
  have A: "0 \<le> A" "A \<le> 1" unfolding A_def al_def using alpha_bounds [OF j g] by simp_all
  have eA: "\<bar>A - al\<bar> \<le> 1 / 2 ^ 53"
    unfolding A_def using fl64_abs_error [OF al] .
  have eB: "\<bar>B - (1 - A)\<bar> \<le> 1 / 2 ^ 53"
    unfolding B_def using fl64_abs_error [of "1 - A" 1] A by simp
  have B: "0 \<le> B" "B \<le> 2"
  proof -
    show "0 \<le> B" unfolding B_def using fl64_nonneg [of "1 - A"] A by simp
    have "(1 / 2 ^ 53 :: real) \<le> 1" by simp
    then show "B \<le> 2" using eB A by linarith
  qed
  have sB: "0 \<le> start_vel * B" "start_vel * B \<le> 2 * start_vel"
    using s B mult_left_mono [of B 2 start_vel] by simp_all
  have eP: "\<bar>P - start_vel * B\<bar> \<le> 2 * start_vel / 2 ^ 53"
    unfolding P_def using fl64_abs_error [OF sB] .
  have eA': "0 \<le> end_vel * A" "end_vel * A \<le> end_vel"
    using e A mult_left_mono [of A 1 end_vel] by simp_all
  have eQ: "\<bar>Q - end_vel * A\<bar> \<le> end_vel / 2 ^ 53"
    unfolding Q_def using fl64_abs_error [OF eA'] .
  have P: "0 \<le> P" "P \<le> 4 * start_vel"
  proof -
    show "0 \<le> P" unfolding P_def using fl64_nonneg [OF sB(1)] .
    have "2 * start_vel / 2 ^ 53 \<le> 2 * start_vel" using s by (simp add: field_simps)
    then show "P \<le> 4 * start_vel" using eP sB by linarith
  qed
  have Q: "0 \<le> Q" "Q \<le> 2 * end_vel"
  proof -
    show "0 \<le> Q" unfolding Q_def using fl64_nonneg [OF eA'(1)] .
    have "end_vel / 2 ^ 53 \<le> end_vel" using e by (simp add: field_simps)
    then show "Q \<le> 2 * end_vel" using eQ eA' by linarith
  qed
  have PQ: "0 \<le> P + Q" "P + Q \<le> 6 * M" using P Q M by linarith+
  have eR: "\<bar>R - (P + Q)\<bar> \<le> 6 * M / 2 ^ 53"
    unfolding R_def using fl64_abs_error [OF PQ] .
  have t1: "\<bar>start_vel * B - start_vel * (1 - A)\<bar> \<le> start_vel / 2 ^ 53"
  proof -
    have "\<bar>start_vel * B - start_vel * (1 - A)\<bar> = start_vel * \<bar>B - (1 - A)\<bar>"
      using s by (simp add: abs_mult right_diff_distrib [symmetric] del: right_diff_distrib)
    also have "\<dots> \<le> start_vel * (1 / 2 ^ 53)"
      using eB s by (intro mult_left_mono) simp_all
    finally show ?thesis by simp
  qed
  have t2: "\<bar>start_vel * (1 - A) - start_vel * (1 - al)\<bar> \<le> start_vel / 2 ^ 53"
  proof -
    have "start_vel * (1 - A) - start_vel * (1 - al) = start_vel * (al - A)"
      by (simp add: algebra_simps)
    then have "\<bar>start_vel * (1 - A) - start_vel * (1 - al)\<bar> = start_vel * \<bar>A - al\<bar>"
      using s by (simp add: abs_mult abs_minus_commute)
    also have "\<dots> \<le> start_vel * (1 / 2 ^ 53)"
      using eA s by (intro mult_left_mono) simp_all
    finally show ?thesis by simp
  qed
  have t3: "\<bar>end_vel * A - end_vel * al\<bar> \<le> end_vel / 2 ^ 53"
  proof -
    have "end_vel * A - end_vel * al = end_vel * (A - al)"
      by (simp add: algebra_simps)
    then have "\<bar>end_vel * A - end_vel * al\<bar> = end_vel * \<bar>A - al\<bar>"
      using e by (simp add: abs_mult)
    also have "\<dots> \<le> end_vel * (1 / 2 ^ 53)"
      using eA e by (intro mult_left_mono) simp_all
    finally show ?thesis by simp
  qed
  have M0: "0 < M" using s M by linarith
  have "\<bar>R - (start_vel * (1 - al) + end_vel * al)\<bar>
        \<le> 6 * M / 2 ^ 53 + 2 * start_vel / 2 ^ 53 + end_vel / 2 ^ 53
           + start_vel / 2 ^ 53 + start_vel / 2 ^ 53 + end_vel / 2 ^ 53"
    using eR eP eQ t1 t2 t3 by linarith
  also have "\<dots> \<le> 12 * M / 2 ^ 53"
    using M by (simp add: field_simps)
  also have "\<dots> \<le> M / 2 ^ 49"
    using M0 by (simp add: field_simps)
  finally show ?thesis
    by (simp add: interp_vel_def Let_def R_def P_def Q_def B_def A_def al_def M_def)
qed

lemma interp_vel_upper:
  assumes s: "0 < start_vel" and e: "0 < end_vel" and j: "j \<le> gap_size" and g: "gap_size \<le> 20"
  shows "interp_vel start_vel end_vel gap_size j \<le> max start_vel end_vel * (1 + 1 / 2 ^ 49)"
proof -
  let ?al = "real j / real (gap_size + 1)"
  let ?M = "max start_vel end_vel"
  have al: "0 \<le> ?al" "?al \<le> 1" using j by simp_all
  have "start_vel * (1 - ?al) \<le> ?M * (1 - ?al)" using al by (intro mult_right_mono) simp_all
  moreover have "end_vel * ?al \<le> ?M * ?al" using al by (intro mult_right_mono) simp_all
  ultimately have "start_vel * (1 - ?al) + end_vel * ?al \<le> ?M * (1 - ?al) + ?M * ?al"
    by (rule add_mono)
  also have "\<dots> = ?M" by (simp add: algebra_simps)
  finally have lin: "start_vel * (1 - ?al) + end_vel * ?al \<le> ?M" .
  have "interp_vel start_vel end_vel gap_size j \<le> ?M + ?M / 2 ^ 49"
    using interp_vel_close [OF s e j g] lin by linarith
  then show ?thesis by (simp add: algebra_simps)
qed

text \<open>The rounded floor is close to 0.7 times the smaller anchor.\<close>

lemma min_transition_velocity_close:
  assumes s: "0 < start_vel" and e: "0 < end_vel"
  shows "\<bar>min_transition_velocity start_vel end_vel - 7 / 10 * min start_vel end_vel\<bar>
         \<le> min start_vel end_vel / 2 ^ 52"
proof -
  define m where "m = min start_vel end_vel"
  define c where "c = fl64 (7 / 10)"
  have m: "0 < m" using s e by (simp add: m_def)
  have ec: "\<bar>c - 7 / 10\<bar> \<le> 1 / 2 ^ 53"
    unfolding c_def using fl64_abs_error [of "7 / 10" 1] by simp
  have c: "0 \<le> c" "c \<le> 1"
  proof -
    show "0 \<le> c" unfolding c_def using fl64_nonneg [of "7 / 10"] by simp
    have "(1 / 2 ^ 53 :: real) \<le> 3 / 10" by simp
    then show "c \<le> 1" using ec by linarith
  qed
  have mc: "0 \<le> m * c" "m * c \<le> m"
    using m c mult_left_mono [of c 1 m] by simp_all
  have e1: "\<bar>fl64 (m * c) - m * c\<bar> \<le> m / 2 ^ 53"
    using fl64_abs_error [OF mc] .
  have e2: "\<bar>m * c - 7 / 10 * m\<bar> \<le> m / 2 ^ 53"
  proof -
    have "m * c - 7 / 10 * m = m * (c - 7 / 10)" by (simp add: algebra_simps)
    then have "\<bar>m * c - 7 / 10 * m\<bar> = m * \<bar>c - 7 / 10\<bar>"
      using m by (simp add: abs_mult)
    also have "\<dots> \<le> m * (1 / 2 ^ 53)"
      using ec m by (intro mult_left_mono) simp_all
    finally show ?thesis by simp
  qed
  have "\<bar>fl64 (m * c) - 7 / 10 * m\<bar> \<le> m / 2 ^ 53 + m / 2 ^ 53"
    using e1 e2 by linarith
  also have "\<dots> = m / 2 ^ 52" by simp
  finally show ?thesis
    by (simp add: min_transition_velocity_def m_def c_def)
qed

subsection \<open>Rounded values, computed\<close>

lemma interp_vel_eval:
  assumes "fl64 (real j / real (gap_size + 1)) = A" and "fl64 (1 - A) = B"
    and "fl64 (start_vel * B) = P" and "fl64 (end_vel * A) = Q" and "fl64 (P + Q) = R"
  shows "interp_vel start_vel end_vel gap_size j = R"
  using assms by (simp add: interp_vel_def Let_def)

lemma mean_of_three_eval:
  assumes "fl64 (x + y) = S" and "fl64 (S + z) = T" and "fl64 (T / 3) = R"
  shows "mean_of_three x y z = R"
  using assms by (simp add: mean_of_three_def)

lemma min_transition_velocity_eval:
  assumes "fl64 0.7 = C" and "fl64 (min start_vel end_vel * C) = R"
  shows "min_transition_velocity start_vel end_vel = R"
  using assms by (simp add: min_transition_velocity_def)

lemma interp_vel_80_100_5_1: "interp_vel 80 100 5 1 = 2932031007402667 / 35184372088832"
  apply (rule interp_vel_eval [where A = "6004799503160661 / 36028797018963968" and B = "7505999378950827 / 9007199254740992" and P = "4691249611844267 / 70368744177664" and Q = "2345624805922133 / 140737488355328"])
  apply (rule fl64_near [where k = 55 and n = 6004799503160661]; simp)
  apply (rule fl64_near [where k = 53 and n = 7505999378950827]; simp)
  apply (rule fl64_near [where k = 46 and n = 4691249611844267]; simp)
  apply (rule fl64_near [where k = 48 and n = 4691249611844266]; simp)
  apply (rule fl64_tie [where k = 46 and n = 5864062014805334]; simp)
  done

lemma interp_vel_80_100_5_2: "interp_vel 80 100 5 2 = 6098624495397547 / 70368744177664"
  apply (rule interp_vel_eval [where A = "6004799503160661 / 18014398509481984" and B = "3002399751580331 / 4503599627370496" and P = "1876499844737707 / 35184372088832" and Q = "2345624805922133 / 70368744177664"])
  apply (rule fl64_near [where k = 54 and n = 6004799503160661]; simp)
  apply (rule fl64_tie [where k = 53 and n = 6004799503160662]; simp)
  apply (rule fl64_tie [where k = 47 and n = 7505999378950828]; simp)
  apply (rule fl64_near [where k = 47 and n = 4691249611844266]; simp)
  apply (rule fl64_near [where k = 46 and n = 6098624495397547]; simp)
  done

lemma interp_vel_80_100_5_3: "interp_vel 80 100 5 3 = 90"
  apply (rule interp_vel_eval [where A = "1 / 2" and B = "1 / 2" and P = "40" and Q = "50"])
  apply (rule fl64_near [where k = 53 and n = 4503599627370496]; simp)
  apply (rule fl64_near [where k = 53 and n = 4503599627370496]; simp)
  apply (rule fl64_near [where k = 47 and n = 5629499534213120]; simp)
  apply (rule fl64_near [where k = 47 and n = 7036874417766400]; simp)
  apply (rule fl64_near [where k = 46 and n = 6333186975989760]; simp)
  done

lemma interp_vel_80_100_5_4: "interp_vel 80 100 5 4 = 6567749456581973 / 70368744177664"
  apply (rule interp_vel_eval [where A = "6004799503160661 / 9007199254740992" and B = "3002399751580331 / 9007199254740992" and P = "1876499844737707 / 70368744177664" and Q = "2345624805922133 / 35184372088832"])
  apply (rule fl64_near [where k = 53 and n = 6004799503160661]; simp)
  apply (rule fl64_near [where k = 54 and n = 6004799503160662]; simp)
  apply (rule fl64_tie [where k = 48 and n = 7505999378950828]; simp)
  apply (rule fl64_near [where k = 46 and n = 4691249611844266]; simp)
  apply (rule fl64_near [where k = 46 and n = 6567749456581973]; simp)
  done

lemma interp_vel_80_100_5_5: "interp_vel 80 100 5 5 = 6802311937174187 / 70368744177664"
  apply (rule interp_vel_eval [where A = "7505999378950827 / 9007199254740992" and B = "1501199875790165 / 9007199254740992" and P = "7505999378950825 / 562949953421312" and Q = "2932031007402667 / 35184372088832"])
  apply (rule fl64_near [where k = 53 and n = 7505999378950827]; simp)
  apply (rule fl64_near [where k = 55 and n = 6004799503160660]; simp)
  apply (rule fl64_near [where k = 49 and n = 7505999378950825]; simp)
  apply (rule fl64_near [where k = 46 and n = 5864062014805334]; simp)
  apply (rule fl64_near [where k = 46 and n = 6802311937174187]; simp)
  done

lemma min_transition_velocity_80_100: "min_transition_velocity 80 100 = 56"
  apply (rule min_transition_velocity_eval [where C = "3152519739159347 / 4503599627370496"])
  apply (rule fl64_near [where k = 53 and n = 6305039478318694]; simp)
  apply (rule fl64_tie [where k = 47 and n = 7881299347898368]; simp)
  done

lemma mean_of_three_80_100_5_1: "mean_of_three (80) (2932031007402667 / 35184372088832) (6098624495397547 / 70368744177664) = 5864062014805333 / 70368744177664"
  apply (rule mean_of_three_eval [where S = "5746780774509227 / 35184372088832" and T = "250"])
  apply (rule fl64_near [where k = 45 and n = 5746780774509227]; simp)
  apply (rule fl64_tie [where k = 45 and n = 8796093022208000]; simp)
  apply (rule fl64_near [where k = 46 and n = 5864062014805333]; simp)
  done

lemma mean_of_three_80_100_5_2: "mean_of_three (2932031007402667 / 35184372088832) (6098624495397547 / 70368744177664) (90) = 6098624495397547 / 70368744177664"
  apply (rule mean_of_three_eval [where S = "170" and T = "260"])
  apply (rule fl64_tie [where k = 45 and n = 5981343255101440]; simp)
  apply (rule fl64_near [where k = 44 and n = 4573968371548160]; simp)
  apply (rule fl64_near [where k = 46 and n = 6098624495397547]; simp)
  done

lemma mean_of_three_80_100_5_3: "mean_of_three (6098624495397547 / 70368744177664) (90) (6567749456581973 / 70368744177664) = 90"
  apply (rule mean_of_three_eval [where S = "3107952867846827 / 17592186044416" and T = "270"])
  apply (rule fl64_tie [where k = 45 and n = 6215905735693654]; simp)
  apply (rule fl64_near [where k = 44 and n = 4749890231992320]; simp)
  apply (rule fl64_near [where k = 46 and n = 6333186975989760]; simp)
  done

lemma mean_of_three_80_100_5_4: "mean_of_three (90) (6567749456581973 / 70368744177664) (6802311937174187 / 70368744177664) = 6567749456581973 / 70368744177664"
  apply (rule mean_of_three_eval [where S = "3225234108142933 / 17592186044416" and T = "280"])
  apply (rule fl64_tie [where k = 45 and n = 6450468216285866]; simp)
  apply (rule fl64_near [where k = 44 and n = 4925812092436480]; simp)
  apply (rule fl64_near [where k = 46 and n = 6567749456581973]; simp)
  done

lemma mean_of_three_80_100_5_5: "mean_of_three (6567749456581973 / 70368744177664) (6802311937174187 / 70368744177664) (100) = 6802311937174187 / 70368744177664"
  apply (rule mean_of_three_eval [where S = "190" and T = "290"])
  apply (rule fl64_near [where k = 45 and n = 6685030696878080]; simp)
  apply (rule fl64_near [where k = 44 and n = 5101733952880640]; simp)
  apply (rule fl64_near [where k = 46 and n = 6802311937174187]; simp)
  done

lemma interp_vel_3_3_9_3: "interp_vel 3 3 9 3 = 6755399441055743 / 2251799813685248"
  apply (rule interp_vel_eval [where A = "5404319552844595 / 18014398509481984" and B = "3152519739159347 / 4503599627370496" and P = "1182194902184755 / 562949953421312" and Q = "2026619832316723 / 2251799813685248"])
  apply (rule fl64_near [where k = 54 and n = 5404319552844595]; simp)
  apply (rule fl64_tie [where k = 53 and n = 6305039478318694]; simp)
  apply (rule fl64_tie [where k = 51 and n = 4728779608739020]; simp)
  apply (rule fl64_tie [where k = 53 and n = 8106479329266892]; simp)
  apply (rule fl64_near [where k = 51 and n = 6755399441055743]; simp)
  done

lemma interp_vel_80_100_1_1: "interp_vel 80 100 1 1 = 90"
  apply (rule interp_vel_eval [where A = "1 / 2" and B = "1 / 2" and P = "40" and Q = "50"])
  apply (rule fl64_near [where k = 53 and n = 4503599627370496]; simp)
  apply (rule fl64_near [where k = 53 and n = 4503599627370496]; simp)
  apply (rule fl64_near [where k = 47 and n = 5629499534213120]; simp)
  apply (rule fl64_near [where k = 47 and n = 7036874417766400]; simp)
  apply (rule fl64_near [where k = 46 and n = 6333186975989760]; simp)
  done

lemma mean_of_three_80_90_100: "mean_of_three (80) (90) (100) = 90"
  apply (rule mean_of_three_eval [where S = "170" and T = "270"])
  apply (rule fl64_near [where k = 45 and n = 5981343255101440]; simp)
  apply (rule fl64_near [where k = 44 and n = 4749890231992320]; simp)
  apply (rule fl64_near [where k = 46 and n = 6333186975989760]; simp)
  done

lemma mean_of_three_0_80_90: "mean_of_three (0) (80) (90) = 7975124340135253 / 140737488355328"
  apply (rule mean_of_three_eval [where S = "80" and T = "170"])
  apply (rule fl64_near [where k = 46 and n = 5629499534213120]; simp)
  apply (rule fl64_near [where k = 45 and n = 5981343255101440]; simp)
  apply (rule fl64_near [where k = 47 and n = 7975124340135253]; simp)
  done

subsection \<open>The two passes on a bridged gap\<close>

lemma velocity_final_nth:
  "k < length vh \<Longrightarrow>
   velocity_final vh nh ! k =
     (if 0 < k \<and> k + 1 < length vh \<and> velocity_smoothed vh nh ! k > 0
      then mean_of_three (velocity_smoothed vh nh ! (k - 1)) (velocity_smoothed vh nh ! k)
             (velocity_smoothed vh nh ! (k + 1))
      else velocity_smoothed vh nh ! k)"
  by (simp add: velocity_final_def moving_average_nth length_velocity_smoothed)

lemma consecutive_anchorsD:
  assumes "consecutive_anchors vh a b"
  shows "a < b" "b < length vh" "vh ! a > 0" "vh ! b > 0"
    "\<And>j. a < j \<Longrightarrow> j < b \<Longrightarrow> vh ! j = 0"
    "\<And>j. a < j \<Longrightarrow> j < b \<Longrightarrow> \<not> vh ! j > 0"
  using assms by (auto simp: consecutive_anchors_def list_all_iff)

lemma midi_valuesD: "midi_values vh \<Longrightarrow> i < length vh \<Longrightarrow> 0 \<le> vh ! i"
  by (simp add: midi_values_def list_all_length)

lemma nearest_anchor_left:
  assumes "\<exists>a<i::nat. P a"
  shows "\<exists>a<i. P a \<and> (\<forall>j. a < j \<and> j < i \<longrightarrow> \<not> P j)"
proof -
  define Q where "Q a \<longleftrightarrow> a < i \<and> P a" for a :: nat
  have ex: "\<exists>a. Q a" using assms by (auto simp: Q_def)
  have bound: "\<forall>y. Q y \<longrightarrow> y \<le> i" by (simp add: Q_def)
  have g: "Q (Greatest Q)" using GreatestI_ex_nat [OF ex] bound by blast
  have m: "Q y \<Longrightarrow> y \<le> Greatest Q" for y using Greatest_le_nat [of Q y i] bound by blast
  show ?thesis
  proof (intro exI conjI allI impI)
    show "Greatest Q < i" "P (Greatest Q)" using g by (simp_all add: Q_def)
    fix j assume "Greatest Q < j \<and> j < i"
    then show "\<not> P j" using m [of j] by (auto simp: Q_def)
  qed
qed

lemma nearest_anchor_right:
  assumes "\<exists>b::nat. i < b \<and> b < n \<and> P b"
  shows "\<exists>b. i < b \<and> b < n \<and> P b \<and> (\<forall>j. i < j \<and> j < b \<longrightarrow> \<not> P j)"
proof -
  define Q where "Q b \<longleftrightarrow> i < b \<and> b < n \<and> P b" for b :: nat
  have ex: "\<exists>b. Q b" using assms by (auto simp: Q_def)
  have l: "Q (Least Q)" using LeastI_ex [OF ex] .
  show ?thesis
  proof (intro exI conjI allI impI)
    show "i < Least Q" "Least Q < n" "P (Least Q)" using l by (simp_all add: Q_def)
    fix j assume j: "i < j \<and> j < Least Q"
    then have "\<not> Q j" using not_less_Least by blast
    then show "\<not> P j" using j l by (auto simp: Q_def)
  qed
qed

text \<open>In a bridged gap the sample is the interpolated value, and it is positive.\<close>

lemma velocity_smoothed_bridged:
  assumes ca: "consecutive_anchors vh a b" and small: "b - a - 1 \<le> gap_threshold"
    and k: "a < k" "k < b"
  shows "velocity_smoothed vh nh ! k = interp_vel (vh ! a) (vh ! b) (b - a - 1) (k - a)"
    and "0 < velocity_smoothed vh nh ! k"
proof -
  note c = consecutive_anchorsD [OF ca]
  have j: "k - a \<le> b - a - 1" using k by simp
  have g: "b - a - 1 \<le> 20" using small by (simp add: gap_threshold_def)
  have fl: "min_transition_velocity (vh ! a) (vh ! b) \<le> interp_vel (vh ! a) (vh ! b) (b - a - 1) (k - a)"
    using floor_below_interp [OF c(3,4) j g] .
  have "velocity_smoothed vh nh ! k =
          max (interp_vel (vh ! a) (vh ! b) (b - a - 1) (k - a))
              (min_transition_velocity (vh ! a) (vh ! b))"
    using velocity_smoothed_gap [OF c(1-4) c(6) k, of nh] small by simp
  then show eq: "velocity_smoothed vh nh ! k = interp_vel (vh ! a) (vh ! b) (b - a - 1) (k - a)"
    using fl by (simp add: max_absorb1)
  show "0 < velocity_smoothed vh nh ! k"
    using eq fl min_transition_velocity_upper(2) [OF c(3,4)] by linarith
qed

text \<open>A sample that the bridging pass changes lies in a bridged gap.\<close>

lemma velocity_smoothed_changed:
  assumes mv: "midi_values vh" and i: "i < length vh"
    and ne: "velocity_smoothed vh nh ! i \<noteq> vh ! i"
  shows "\<exists>a b. consecutive_anchors vh a b \<and> b - a - 1 \<le> gap_threshold \<and> a < i \<and> i < b"
proof -
  have z: "\<not> vh ! i > 0"
    using velocity_smoothed_anchor [OF i, of nh] ne by blast
  have "\<exists>a<i. vh ! a > 0"
  proof (rule ccontr)
    assume "\<not> (\<exists>a<i. vh ! a > 0)"
    then have "\<And>j. j \<le> i \<Longrightarrow> \<not> vh ! j > 0" using z by (metis le_neq_implies_less)
    then show False using velocity_smoothed_no_left [OF i, of nh] ne by blast
  qed
  then obtain a where a: "a < i" "vh ! a > 0" "\<forall>j. a < j \<and> j < i \<longrightarrow> \<not> vh ! j > 0"
    using nearest_anchor_left [of i "\<lambda>a. vh ! a > 0"] by blast
  have "\<exists>b. i < b \<and> b < length vh \<and> vh ! b > 0"
  proof (rule ccontr)
    assume "\<not> (\<exists>b. i < b \<and> b < length vh \<and> vh ! b > 0)"
    then have "\<And>j. i \<le> j \<Longrightarrow> j < length vh \<Longrightarrow> \<not> vh ! j > 0"
      using z by (metis le_neq_implies_less)
    then show False using velocity_smoothed_no_right [OF i, of nh] ne by blast
  qed
  then obtain b where b: "i < b" "b < length vh" "vh ! b > 0"
      "\<forall>j. i < j \<and> j < b \<longrightarrow> \<not> vh ! j > 0"
    using nearest_anchor_right [of i "length vh" "\<lambda>b. vh ! b > 0"] by blast
  have ab: "a < b" using a b by simp
  have zeros: "\<And>j. a < j \<Longrightarrow> j < b \<Longrightarrow> \<not> vh ! j > 0"
    using a(3) b(4) z by (metis linorder_neqE_nat)
  have small: "b - a - 1 \<le> gap_threshold"
    using velocity_smoothed_gap [OF ab b(2) a(2) b(3) zeros a(1) b(1), of nh] ne
    by (simp split: if_splits)
  have "vh ! j = 0" if "a < j" "j < b" for j
  proof -
    have "j < length vh" using that b(2) by simp
    then show ?thesis using midi_valuesD [OF mv, of j] zeros [OF that] by simp
  qed
  then have "consecutive_anchors vh a b"
    using ab b(2) a(2) b(3) by (simp add: consecutive_anchors_def list_all_iff)
  then show ?thesis using small a(1) b(1) by blast
qed

text \<open>The samples that are positive after the bridging pass.\<close>

lemma velocity_smoothed_positive_iff:
  assumes mv: "midi_values vh" and i: "i < length vh"
  shows "velocity_smoothed vh nh ! i > 0 \<longleftrightarrow>
           vh ! i \<noteq> 0
           \<or> (\<exists>a b. consecutive_anchors vh a b \<and> b - a - 1 \<le> gap_threshold \<and> a < i \<and> i < b)"
proof
  assume pos: "velocity_smoothed vh nh ! i > 0"
  show "vh ! i \<noteq> 0
        \<or> (\<exists>a b. consecutive_anchors vh a b \<and> b - a - 1 \<le> gap_threshold \<and> a < i \<and> i < b)"
  proof (cases "vh ! i = 0")
    case False
    then show ?thesis by simp
  next
    case True
    then have "velocity_smoothed vh nh ! i \<noteq> vh ! i" using pos by simp
    then show ?thesis using velocity_smoothed_changed [OF mv i] by blast
  qed
next
  assume "vh ! i \<noteq> 0
          \<or> (\<exists>a b. consecutive_anchors vh a b \<and> b - a - 1 \<le> gap_threshold \<and> a < i \<and> i < b)"
  then show "velocity_smoothed vh nh ! i > 0"
  proof
    assume "vh ! i \<noteq> 0"
    then have "vh ! i > 0" using midi_valuesD [OF mv i] by simp
    then show ?thesis using velocity_smoothed_anchor [OF i, of nh] by simp
  next
    assume "\<exists>a b. consecutive_anchors vh a b \<and> b - a - 1 \<le> gap_threshold \<and> a < i \<and> i < b"
    then obtain a b where "consecutive_anchors vh a b" "b - a - 1 \<le> gap_threshold" "a < i" "i < b"
      by blast
    then show ?thesis by (rule velocity_smoothed_bridged(2))
  qed
qed

text \<open>The output at a sample of a bridged gap.\<close>

lemma velocity_final_bridged:
  assumes ca: "consecutive_anchors vh a b" and small: "b - a - 1 \<le> gap_threshold"
    and k: "a < k" "k < b"
  shows "velocity_final vh nh ! k =
           mean_of_three (velocity_smoothed vh nh ! (k - 1)) (velocity_smoothed vh nh ! k)
             (velocity_smoothed vh nh ! (k + 1))"
proof -
  note c = consecutive_anchorsD [OF ca]
  have "0 < k" "k + 1 < length vh" "k < length vh" using k c(2) by simp_all
  then show ?thesis
    using velocity_smoothed_bridged(2) [OF ca small k, of nh] by (simp add: velocity_final_nth)
qed

text \<open>The gap of 5 zeros between the anchors 80 and 100, anywhere in a buffer.\<close>

lemma example_gap_smoothed:
  assumes ca: "consecutive_anchors vh a b" and va: "vh ! a = 80" and vb: "vh ! b = 100"
    and bd: "b = a + 6"
  shows "velocity_smoothed vh nh ! a = 80"
    and "velocity_smoothed vh nh ! (a + 1) = 2932031007402667 / 35184372088832"
    and "velocity_smoothed vh nh ! (a + 2) = 6098624495397547 / 70368744177664"
    and "velocity_smoothed vh nh ! (a + 3) = 90"
    and "velocity_smoothed vh nh ! (a + 4) = 6567749456581973 / 70368744177664"
    and "velocity_smoothed vh nh ! (a + 5) = 6802311937174187 / 70368744177664"
    and "velocity_smoothed vh nh ! (a + 6) = 100"
proof -
  note c = consecutive_anchorsD [OF ca]
  have small: "b - a - 1 \<le> gap_threshold" using bd by (simp add: gap_threshold_def)
  have br: "velocity_smoothed vh nh ! (a + j) = interp_vel 80 100 5 j" if "1 \<le> j" "j \<le> 5" for j
    using velocity_smoothed_bridged(1) [OF ca small, of "a + j" nh] that bd va vb by simp
  show "velocity_smoothed vh nh ! a = 80"
    using velocity_smoothed_anchor [of a vh nh] c va by simp
  show "velocity_smoothed vh nh ! (a + 6) = 100"
    using velocity_smoothed_anchor [of b vh nh] c vb bd by simp
  have "(1::nat) \<le> 1" "(1::nat) \<le> 5" by simp_all
  from br [OF this] show "velocity_smoothed vh nh ! (a + 1) = 2932031007402667 / 35184372088832"
    by (simp only: interp_vel_80_100_5_1)
  have "(1::nat) \<le> 2" "(2::nat) \<le> 5" by simp_all
  from br [OF this] show "velocity_smoothed vh nh ! (a + 2) = 6098624495397547 / 70368744177664"
    by (simp only: interp_vel_80_100_5_2)
  have "(1::nat) \<le> 3" "(3::nat) \<le> 5" by simp_all
  from br [OF this] show "velocity_smoothed vh nh ! (a + 3) = 90"
    by (simp only: interp_vel_80_100_5_3)
  have "(1::nat) \<le> 4" "(4::nat) \<le> 5" by simp_all
  from br [OF this] show "velocity_smoothed vh nh ! (a + 4) = 6567749456581973 / 70368744177664"
    by (simp only: interp_vel_80_100_5_4)
  have "(1::nat) \<le> 5" "(5::nat) \<le> 5" by simp_all
  from br [OF this] show "velocity_smoothed vh nh ! (a + 5) = 6802311937174187 / 70368744177664"
    by (simp only: interp_vel_80_100_5_5)
qed

lemma example_gap_final:
  assumes ca: "consecutive_anchors vh a b" and va: "vh ! a = 80" and vb: "vh ! b = 100"
    and bd: "b = a + 6"
  shows "velocity_final vh nh ! (a + 1) = 5864062014805333 / 70368744177664"
    and "velocity_final vh nh ! (a + 2) = 6098624495397547 / 70368744177664"
    and "velocity_final vh nh ! (a + 3) = 90"
    and "velocity_final vh nh ! (a + 4) = 6567749456581973 / 70368744177664"
    and "velocity_final vh nh ! (a + 5) = 6802311937174187 / 70368744177664"
proof -
  note sm = example_gap_smoothed [OF assms, of nh]
  have small: "b - a - 1 \<le> gap_threshold" using bd by (simp add: gap_threshold_def)
  note fin = velocity_final_bridged [OF ca small, of _ nh]
  have i1: "a + 1 - 1 = a" "a + 1 + 1 = a + 2" by simp_all
  have i2: "a + 2 - 1 = a + 1" "a + 2 + 1 = a + 3" by simp_all
  have i3: "a + 3 - 1 = a + 2" "a + 3 + 1 = a + 4" by simp_all
  have i4: "a + 4 - 1 = a + 3" "a + 4 + 1 = a + 5" by simp_all
  have i5: "a + 5 - 1 = a + 4" "a + 5 + 1 = a + 6" by simp_all
  have "a < a + 1" "a + 1 < b" using bd by simp_all
  from fin [OF this] show "velocity_final vh nh ! (a + 1) = 5864062014805333 / 70368744177664"
    unfolding i1 sm by (simp only: mean_of_three_80_100_5_1)
  have "a < a + 2" "a + 2 < b" using bd by simp_all
  from fin [OF this] show "velocity_final vh nh ! (a + 2) = 6098624495397547 / 70368744177664"
    unfolding i2 sm by (simp only: mean_of_three_80_100_5_2)
  have "a < a + 3" "a + 3 < b" using bd by simp_all
  from fin [OF this] show "velocity_final vh nh ! (a + 3) = 90"
    unfolding i3 sm by (simp only: mean_of_three_80_100_5_3)
  have "a < a + 4" "a + 4 < b" using bd by simp_all
  from fin [OF this] show "velocity_final vh nh ! (a + 4) = 6567749456581973 / 70368744177664"
    unfolding i4 sm by (simp only: mean_of_three_80_100_5_4)
  have "a < a + 5" "a + 5 < b" using bd by simp_all
  from fin [OF this] show "velocity_final vh nh ! (a + 5) = 6802311937174187 / 70368744177664"
    unfolding i5 sm by (simp only: mean_of_three_80_100_5_5)
qed

lemma example_gap_increasing:
  assumes ca: "consecutive_anchors vh a b" and va: "vh ! a = 80" and vb: "vh ! b = 100"
    and bd: "b = a + 6" and j: "1 \<le> j" "j \<le> 5"
  shows "80 < velocity_smoothed vh nh ! (a + j) \<and> velocity_smoothed vh nh ! (a + j) < 100
         \<and> 56 \<le> velocity_smoothed vh nh ! (a + j)
         \<and> (j < 5 \<longrightarrow> velocity_smoothed vh nh ! (a + j) < velocity_smoothed vh nh ! (a + (j + 1)))"
    and "80 < velocity_final vh nh ! (a + j) \<and> velocity_final vh nh ! (a + j) < 100
         \<and> 56 \<le> velocity_final vh nh ! (a + j)
         \<and> (j < 5 \<longrightarrow> velocity_final vh nh ! (a + j) < velocity_final vh nh ! (a + (j + 1)))"
proof -
  note sm = example_gap_smoothed [OF ca va vb bd, of nh]
  note fin = example_gap_final [OF ca va vb bd, of nh]
  have cases: "j = 1 \<or> j = 2 \<or> j = 3 \<or> j = 4 \<or> j = 5" using j by linarith
  show "80 < velocity_smoothed vh nh ! (a + j) \<and> velocity_smoothed vh nh ! (a + j) < 100
         \<and> 56 \<le> velocity_smoothed vh nh ! (a + j)
         \<and> (j < 5 \<longrightarrow> velocity_smoothed vh nh ! (a + j) < velocity_smoothed vh nh ! (a + (j + 1)))"
    using cases sm by (elim disjE) simp_all
  show "80 < velocity_final vh nh ! (a + j) \<and> velocity_final vh nh ! (a + j) < 100
         \<and> 56 \<le> velocity_final vh nh ! (a + j)
         \<and> (j < 5 \<longrightarrow> velocity_final vh nh ! (a + j) < velocity_final vh nh ! (a + (j + 1)))"
    using cases fin by (elim disjE) simp_all
qed

subsection \<open>The operands of the roundings\<close>

text \<open>
  On a buffer of MIDI velocities every rounding of the smoother is applied to 0 or to a
  value between \<open>1 / 32\<close> and \<open>512\<close>, where float64 has neither overflow nor subnormal
  numbers: the operands of the five roundings of the interpolation, of the two roundings
  of the floor and of the three roundings of the mean, and the bridged values that the
  mean reads.
\<close>

lemma interp_vel_operands:
  assumes s: "1 \<le> start_vel" "start_vel \<le> 127" and e: "1 \<le> end_vel" "end_vel \<le> 127"
    and j: "1 \<le> j" "j \<le> gap_size" and g: "gap_size \<le> 20"
    and A: "A = fl64 (real j / real (gap_size + 1))" and B: "B = fl64 (1 - A)"
  shows "list_all (\<lambda>x. 1 / 32 \<le> x \<and> x \<le> 512)
           [real j / real (gap_size + 1), 1 - A, start_vel * B, end_vel * A,
            fl64 (start_vel * B) + fl64 (end_vel * A)]"
proof -
  let ?x = "real j / real (gap_size + 1)"
  have "real (gap_size + 1) \<le> 21 * real j"
  proof -
    have "gap_size + 1 \<le> 21 * j" using j g by simp
    then show ?thesis by (metis of_nat_le_iff of_nat_mult of_nat_numeral)
  qed
  then have x1: "1 / 21 \<le> ?x" by (simp add: field_simps)
  have "real j * 21 \<le> 20 * real (gap_size + 1)"
  proof -
    have "j * 21 \<le> 20 * (gap_size + 1)" using j g by simp
    then show ?thesis by (metis of_nat_le_iff of_nat_mult of_nat_numeral)
  qed
  then have x2: "?x \<le> 20 / 21" by (simp add: field_simps)
  have "1 / 21 * (1 - 1 / 2 ^ 53) \<le> A" "A \<le> 20 / 21 * (1 + 1 / 2 ^ 53)"
    unfolding A using fl64_range [OF x1 x2] by simp_all
  then have a: "1 / 22 \<le> A" "A \<le> 21 / 22" by simp_all
  then have a': "1 / 22 \<le> 1 - A" "1 - A \<le> 21 / 22" by simp_all
  have "1 / 22 * (1 - 1 / 2 ^ 53) \<le> B" "B \<le> 21 / 22 * (1 + 1 / 2 ^ 53)"
    unfolding B using fl64_range [OF a'] by simp_all
  then have b: "1 / 23 \<le> B" "B \<le> 1" by simp_all
  have sb: "1 / 23 \<le> start_vel * B" "start_vel * B \<le> 127"
    using mult_mono [of 1 start_vel "1 / 23" B] mult_mono [of start_vel 127 B 1] s b by simp_all
  have ea: "1 / 22 \<le> end_vel * A" "end_vel * A \<le> 127"
    using mult_mono [of 1 end_vel "1 / 22" A] mult_mono [of end_vel 127 A 1] e a by simp_all
  have "1 / 23 * (1 - 1 / 2 ^ 53) \<le> fl64 (start_vel * B)"
    "fl64 (start_vel * B) \<le> 127 * (1 + 1 / 2 ^ 53)"
    using fl64_range [OF sb] by simp_all
  then have p: "1 / 24 \<le> fl64 (start_vel * B)" "fl64 (start_vel * B) \<le> 128" by simp_all
  have "1 / 22 * (1 - 1 / 2 ^ 53) \<le> fl64 (end_vel * A)"
    "fl64 (end_vel * A) \<le> 127 * (1 + 1 / 2 ^ 53)"
    using fl64_range [OF ea] by simp_all
  then have q: "1 / 24 \<le> fl64 (end_vel * A)" "fl64 (end_vel * A) \<le> 128" by simp_all
  have r1: "1 / 32 \<le> ?x \<and> ?x \<le> 512" using x1 x2 by linarith
  have r2: "1 / 32 \<le> 1 - A \<and> 1 - A \<le> 512" using a' by linarith
  have r3: "1 / 32 \<le> start_vel * B \<and> start_vel * B \<le> 512" using sb by linarith
  have r4: "1 / 32 \<le> end_vel * A \<and> end_vel * A \<le> 512" using ea by linarith
  have r5: "1 / 32 \<le> fl64 (start_vel * B) + fl64 (end_vel * A)
      \<and> fl64 (start_vel * B) + fl64 (end_vel * A) \<le> 512"
    using p q by linarith
  show ?thesis
    using r1 r2 r3 r4 r5 by (simp only: list_all_Cons_iff list_all_Nil_iff simp_thms)
qed

lemma min_transition_velocity_operands:
  assumes s: "1 \<le> start_vel" "start_vel \<le> 127" and e: "1 \<le> end_vel" "end_vel \<le> 127"
  shows "list_all (\<lambda>x. 1 / 32 \<le> x \<and> x \<le> 512) [7 / 10, min start_vel end_vel * fl64 (7 / 10)]"
proof -
  have "7 / 10 * (1 - 1 / 2 ^ 53) \<le> fl64 (7 / 10)" "fl64 (7 / 10) \<le> 7 / 10 * (1 + 1 / 2 ^ 53)"
    using fl64_range [of "7 / 10" "7 / 10" "7 / 10"] by simp_all
  then have c: "1 / 2 \<le> fl64 (7 / 10)" "fl64 (7 / 10) \<le> 1" by simp_all
  have m: "1 \<le> min start_vel end_vel" "min start_vel end_vel \<le> 127" using s e by simp_all
  have "1 / 2 \<le> min start_vel end_vel * fl64 (7 / 10)" "min start_vel end_vel * fl64 (7 / 10) \<le> 127"
    using mult_mono [of 1 "min start_vel end_vel" "1 / 2" "fl64 (7 / 10)"]
      mult_mono [of "min start_vel end_vel" 127 "fl64 (7 / 10)" 1] m c by simp_all
  then have "1 / 32 \<le> min start_vel end_vel * fl64 (7 / 10)
      \<and> min start_vel end_vel * fl64 (7 / 10) \<le> 512"
    by linarith
  moreover have "(1 / 32 :: real) \<le> 7 / 10 \<and> (7 / 10 :: real) \<le> 512" by simp
  ultimately show ?thesis
    by (simp only: list_all_Cons_iff list_all_Nil_iff simp_thms)
qed

lemma mean_of_three_operands:
  assumes x: "x = 0 \<or> 1 / 2 \<le> x \<and> x \<le> 128" and y: "1 / 2 \<le> y" "y \<le> 128"
    and z: "z = 0 \<or> 1 / 2 \<le> z \<and> z \<le> 128"
  shows "list_all (\<lambda>x. 1 / 32 \<le> x \<and> x \<le> 512)
           [x + y, fl64 (x + y) + z, fl64 (fl64 (x + y) + z) / 3]"
proof -
  have xy: "1 / 2 \<le> x + y" "x + y \<le> 256" using x y by auto
  have "1 / 2 * (1 - 1 / 2 ^ 53) \<le> fl64 (x + y)" "fl64 (x + y) \<le> 256 * (1 + 1 / 2 ^ 53)"
    using fl64_range [OF xy] by simp_all
  then have S: "1 / 4 \<le> fl64 (x + y)" "fl64 (x + y) \<le> 257" by simp_all
  have Sz: "1 / 4 \<le> fl64 (x + y) + z" "fl64 (x + y) + z \<le> 385" using S z by auto
  have "1 / 4 * (1 - 1 / 2 ^ 53) \<le> fl64 (fl64 (x + y) + z)"
    "fl64 (fl64 (x + y) + z) \<le> 385 * (1 + 1 / 2 ^ 53)"
    using fl64_range [OF Sz] by simp_all
  then have T: "1 / 8 \<le> fl64 (fl64 (x + y) + z)" "fl64 (fl64 (x + y) + z) \<le> 386" by simp_all
  have r1: "1 / 32 \<le> x + y \<and> x + y \<le> 512" using xy by linarith
  have r2: "1 / 32 \<le> fl64 (x + y) + z \<and> fl64 (x + y) + z \<le> 512" using Sz by linarith
  have r3: "1 / 32 \<le> fl64 (fl64 (x + y) + z) / 3 \<and> fl64 (fl64 (x + y) + z) / 3 \<le> 512"
    using T by linarith
  show ?thesis
    using r1 r2 r3 by (simp only: list_all_Cons_iff list_all_Nil_iff simp_thms)
qed

lemma midi_values_anchor:
  assumes "midi_values vh" and "i < length vh" and "vh ! i \<noteq> 0"
  shows "1 \<le> vh ! i" and "vh ! i \<le> 127"
proof -
  have v: "0 \<le> vh ! i" "vh ! i \<le> 127" "of_int \<lfloor>vh ! i\<rfloor> = vh ! i"
    using assms(1,2) by (simp_all add: midi_values_def list_all_length)
  then have "0 < \<lfloor>vh ! i\<rfloor>" using assms(3) by (metis floor_less_zero floor_zero linorder_neqE_linordered_idom of_int_0 not_le)
  then have "1 \<le> \<lfloor>vh ! i\<rfloor>" by simp
  then have "1 \<le> (of_int \<lfloor>vh ! i\<rfloor> :: real)" by linarith
  then show "1 \<le> vh ! i" using v(3) by simp
  show "vh ! i \<le> 127" using v(2) .
qed

lemma velocity_smoothed_range:
  assumes mv: "midi_values vh" and i: "i < length vh"
  shows "velocity_smoothed vh nh ! i = 0
         \<or> 1 / 2 \<le> velocity_smoothed vh nh ! i \<and> velocity_smoothed vh nh ! i \<le> 128"
proof (cases "velocity_smoothed vh nh ! i = vh ! i")
  case True
  show ?thesis
  proof (cases "vh ! i = 0")
    case z: True
    then show ?thesis using True by simp
  next
    case False
    then show ?thesis using midi_values_anchor [OF mv i] True by simp
  qed
next
  case False
  then obtain a b where ca: "consecutive_anchors vh a b" and small: "b - a - 1 \<le> gap_threshold"
    and k: "a < i" "i < b"
    using velocity_smoothed_changed [OF mv i] by blast
  note c = consecutive_anchorsD [OF ca]
  have la: "a < length vh" using c(1,2) by simp
  have va: "1 \<le> vh ! a" "vh ! a \<le> 127" using midi_values_anchor [OF mv la] c(3) by simp_all
  have vb: "1 \<le> vh ! b" "vh ! b \<le> 127" using midi_values_anchor [OF mv c(2)] c(4) by simp_all
  have j: "i - a \<le> b - a - 1" using k by simp
  have g: "b - a - 1 \<le> 20" using small by (simp add: gap_threshold_def)
  have eq: "velocity_smoothed vh nh ! i = interp_vel (vh ! a) (vh ! b) (b - a - 1) (i - a)"
    using velocity_smoothed_bridged(1) [OF ca small k] .
  have "1 * (1 - 1 / 2 ^ 51) \<le> min (vh ! a) (vh ! b) * (1 - 1 / 2 ^ 51)"
    using va vb by (intro mult_right_mono) simp_all
  moreover have "(1 / 2 :: real) \<le> 1 * (1 - 1 / 2 ^ 51)" by simp
  ultimately have lo: "1 / 2 \<le> interp_vel (vh ! a) (vh ! b) (b - a - 1) (i - a)"
    using interp_vel_near_min [OF c(3,4) j g] by linarith
  have "max (vh ! a) (vh ! b) * (1 + 1 / 2 ^ 49) \<le> 127 * (1 + 1 / 2 ^ 49)"
    using va vb by (intro mult_right_mono) simp_all
  moreover have "127 * (1 + 1 / 2 ^ 49) \<le> (128 :: real)" by simp
  ultimately have hi: "interp_vel (vh ! a) (vh ! b) (b - a - 1) (i - a) \<le> 128"
    using interp_vel_upper [OF c(3,4) j g] by linarith
  show ?thesis using eq lo hi by simp
qed

section \<open>Lemmas about the state\<close>

lemma set_last_roll:
  "xs \<noteq> [] \<Longrightarrow> set_last (np_roll_left xs) v = Inr (tl xs @ [v])"
  by (cases xs) (simp_all add: set_last_def np_roll_left_def)

lemma history_nonempty: "length xs = HISTORY_LENGTH \<Longrightarrow> xs \<noteq> []"
  by (auto simp: HISTORY_LENGTH_def)

lemma length_tl_snoc: "xs \<noteq> [] \<Longrightarrow> length (tl xs @ [v]) = length xs"
  by (cases xs) simp_all

lemma update_history_inactive: "\<not> is_note_active s \<Longrightarrow> update_history s = Inr s"
  by (simp add: update_history_def)

lemma update_history_active:
  assumes "is_note_active s" and "current_note s = Some cur"
    and "velocity_history s \<noteq> []" and "note_history s \<noteq> []"
  shows "update_history s =
    (let vh = tl (velocity_history s) @ [real (current_velocity s)];
         nh = tl (note_history s) @ [int cur];
         s1 = s\<lparr>velocity_history := vh, note_history := nh\<rparr>;
         cnv = current_note_velocities vh nh (int cur)
     in if cnv \<noteq> []
        then Inr (s1\<lparr>stats_of := \<lparr>mean = np_mean cnv, std_dev = np_std cnv,
                                  min_v = np_min cnv, max_v = np_max cnv\<rparr>\<rparr>)
        else Inr s1)"
  using assms by (simp add: update_history_def set_last_roll Let_def)

lemma state_ok_init: "state_ok init"
  by (simp add: state_ok_def init_def list_all_iff)

lemma state_ok_example_after_first_tick: "state_ok example_after_first_tick"
  by (simp add: state_ok_def example_after_first_tick_def init_def HISTORY_LENGTH_def list_all_iff)

lemma state_ok_clear: "state_ok s \<Longrightarrow> state_ok (clear s)"
  by (simp add: state_ok_def clear_def list_all_iff)

lemma handle_event_histories:
  "velocity_history (handle_event ev s) = velocity_history s"
  "note_history (handle_event ev s) = note_history s"
  by (cases ev; simp add: Let_def)+

lemma handle_event_active:
  "is_note_active (handle_event ev s) \<Longrightarrow>
   (is_note_active s \<Longrightarrow> current_note s \<noteq> None) \<Longrightarrow> current_note (handle_event ev s) \<noteq> None"
  by (cases ev) (auto simp: Let_def split: if_splits)

lemma state_ok_handle_event: "state_ok s \<Longrightarrow> state_ok (handle_event ev s)"
  unfolding state_ok_def
  using handle_event_active [of ev s] by (simp add: handle_event_histories split: if_splits)

lemma state_ok_fold: "state_ok s \<Longrightarrow> state_ok (fold handle_event evs s)"
  by (induction evs arbitrary: s) (simp_all add: state_ok_handle_event)

lemma state_ok_update_history:
  assumes "state_ok s"
  shows "\<exists>s'. update_history s = Inr s' \<and> state_ok s'"
proof (cases "is_note_active s")
  case False
  then show ?thesis using assms by (simp add: update_history_inactive)
next
  case True
  then obtain cur where cur: "current_note s = Some cur"
    using assms by (auto simp: state_ok_def)
  have ne: "velocity_history s \<noteq> []" "note_history s \<noteq> []"
    using assms by (simp_all add: state_ok_def history_nonempty)
  have pos: "list_all (\<lambda>v. 0 \<le> v) (tl (velocity_history s) @ [real (current_velocity s)])"
    using assms ne(1) by (cases "velocity_history s") (simp_all add: state_ok_def)
  have len: "length (tl (velocity_history s) @ [real (current_velocity s)]) = HISTORY_LENGTH"
    "length (tl (note_history s) @ [int cur]) = HISTORY_LENGTH"
    using assms length_tl_snoc [OF ne(1)] length_tl_snoc [OF ne(2)]
    by (simp_all add: state_ok_def del: length_append)
  show ?thesis
    using True cur pos len
    by (simp add: update_history_active [OF True cur ne] Let_def state_ok_def)
qed

lemma status_cc: "status_of (176, d1, d2) = 176"
  by (simp add: status_of_def)

lemma status_on: "status_of (144, d1, d2) = 144"
  by (simp add: status_of_def)

lemma status_off: "status_of (128, d1, d2) = 128"
  by (simp add: status_of_def)

lemma state_ok_process_midi:
  assumes "state_ok s"
  shows "\<exists>s'. process_midi evs s = Inr s' \<and> state_ok s'"
  unfolding process_midi_def
  by (rule state_ok_update_history [OF state_ok_fold [OF assms]])

lemma update_history_histories:
  assumes "is_note_active s" and "current_note s = Some cur"
    and "velocity_history s \<noteq> []" and "note_history s \<noteq> []"
    and "update_history s = Inr s'"
  shows "velocity_history s' = tl (velocity_history s) @ [real (current_velocity s)]"
    and "note_history s' = tl (note_history s) @ [int cur]"
  using assms(5) unfolding update_history_active [OF assms(1-4)] Let_def
  by (auto split: if_splits)

subsection \<open>The statistics of the current note\<close>

lemma cnv_replicate_snoc:
  "current_note_velocities (replicate n 0 @ vs) (replicate n (- 1) @ ns) cur =
     current_note_velocities vs ns cur"
  by (simp add: current_note_velocities_def)

lemma tl_replicate_append: "0 < n \<Longrightarrow> tl (replicate n x @ ys) = replicate (n - 1) x @ ys"
  by (cases n) simp_all

lemma cnv_as_one_filter:
  assumes "list_all (\<lambda>v. 0 \<le> v) vh"
  shows "current_note_velocities vh nh cur =
           map fst (filter (\<lambda>(v, n). n = cur \<and> v \<noteq> 0) (zip vh nh))"
proof -
  have "\<And>p. p \<in> set (zip vh nh) \<Longrightarrow> 0 \<le> fst p"
    using assms by (auto simp: list_all_iff dest: set_zip_leftD)
  then have "filter (\<lambda>p. fst p > 0) (filter (\<lambda>(v, n). n = cur) (zip vh nh)) =
        filter (\<lambda>(v, n). n = cur \<and> v \<noteq> 0) (zip vh nh)"
    by (auto intro!: filter_cong simp: less_le)
  then show ?thesis
    by (simp add: current_note_velocities_def filter_map comp_def)
qed

lemma np_min_Min: "xs \<noteq> [] \<Longrightarrow> np_min xs = Min (set xs)"
proof (cases xs)
  case Nil
  assume "xs \<noteq> []"
  with Nil show ?thesis by simp
next
  case (Cons a list)
  then show ?thesis by (simp only: np_min.simps Min.set_eq_fold)
qed

lemma np_max_Max: "xs \<noteq> [] \<Longrightarrow> np_max xs = Max (set xs)"
proof (cases xs)
  case Nil
  assume "xs \<noteq> []"
  with Nil show ?thesis by simp
next
  case (Cons a list)
  then show ?thesis by (simp only: np_max.simps Max.set_eq_fold)
qed

lemma sqrt_200_3: "8.164 < sqrt (200 / 3)" "sqrt (200 / 3) < 8.166"
proof -
  show "8.164 < sqrt (200 / 3)" by (rule real_less_rsqrt) (simp add: power2_eq_square)
  show "sqrt (200 / 3) < 8.166" by (rule real_less_lsqrt) (simp_all add: power2_eq_square)
qed

subsection \<open>The example states\<close>

lemma first_tick:
  "process_midi [(144, 60, 80)] init =
     Inr (init\<lparr>current_note := Some 60, current_velocity := 80, is_note_active := True,
               note_colors := [60 \<mapsto> (65, 156, 255)], color_index := 1,
               velocity_history := replicate 299 0 @ [80],
               note_history := replicate 299 (- 1) @ [60],
               stats_of := \<lparr>mean = 80, std_dev = 0, min_v = 80, max_v = 80\<rparr>\<rparr>)"
proof -
  define s where "s = init\<lparr>current_note := Some 60, current_velocity := 80, is_note_active := True,
               note_colors := [60 \<mapsto> (65, 156, 255)], color_index := 1\<rparr>"
  have h: "handle_event (144, 60, 80) init = s"
    by (simp add: s_def status_on Let_def init_def NOTE_COLORS_def)
  have a: "is_note_active s" "current_note s = Some 60"
    by (simp_all add: s_def)
  have ne: "velocity_history s \<noteq> []" "note_history s \<noteq> []"
    by (simp_all add: s_def init_def HISTORY_LENGTH_def)
  have vh: "tl (velocity_history s) @ [real (current_velocity s)] = replicate 299 0 @ [80]"
    and nh: "tl (note_history s) @ [int 60] = replicate 299 (- 1) @ [60]"
    by (simp_all add: s_def init_def HISTORY_LENGTH_def)
  have c: "current_note_velocities (replicate 299 0 @ [80]) (replicate 299 (- 1) @ [60]) (int 60) = [80]"
    unfolding cnv_replicate_snoc by (simp add: current_note_velocities_def)
  have "update_history s =
     Inr (s\<lparr>velocity_history := replicate 299 0 @ [80],
            note_history := replicate 299 (- 1) @ [60],
            stats_of := \<lparr>mean = 80, std_dev = 0, min_v = 80, max_v = 80\<rparr>\<rparr>)"
    unfolding update_history_active [OF a ne] vh nh Let_def c
    by (simp add: np_mean_def np_std_def)
  moreover have "process_midi [(144, 60, 80)] init = update_history s"
    unfolding process_midi_def by (simp only: fold.simps id_apply comp_apply h)
  ultimately show ?thesis
    by (simp add: s_def)
qed

lemma example_first_tick: "process_midi [(144, 60, 80)] init = Inr example_after_first_tick"
  unfolding example_after_first_tick_def by (rule first_tick)

lemma example_second_events:
  "fold handle_event [(144, 62, 50), (176, 7, 0)] example_after_first_tick = example_before_second_tick"
proof -
  have 1: "handle_event (144, 62, 50) example_after_first_tick =
      example_after_first_tick\<lparr>current_note := Some 62, current_velocity := 50,
          note_colors := [60 \<mapsto> (65, 156, 255), 62 \<mapsto> (255, 100, 100)], color_index := 2\<rparr>"
    by (simp add: status_on Let_def example_after_first_tick_def init_def NOTE_COLORS_def)
  have 2: "handle_event (176, 7, 0) (example_after_first_tick\<lparr>current_note := Some 62,
          current_velocity := 50,
          note_colors := [60 \<mapsto> (65, 156, 255), 62 \<mapsto> (255, 100, 100)], color_index := 2\<rparr>)
      = example_before_second_tick"
    by (simp add: status_cc Let_def example_before_second_tick_def example_after_first_tick_def init_def)
  show ?thesis
    by (simp only: fold.simps id_apply comp_apply 1 2)
qed

lemma example_second_cnv:
  "current_note_velocities (replicate 298 0 @ [80, 0]) (replicate 298 (- 1) @ [60, 62]) 62 = []"
  unfolding cnv_replicate_snoc by (simp add: current_note_velocities_def)

lemma example_second_update:
  "update_history example_before_second_tick = Inr example_after_second_tick"
proof -
  let ?s = example_before_second_tick
  have a: "is_note_active ?s" "current_note ?s = Some 62"
    by (simp_all add: example_before_second_tick_def example_after_first_tick_def)
  have ne: "velocity_history ?s \<noteq> []" "note_history ?s \<noteq> []"
    by (simp_all add: example_before_second_tick_def example_after_first_tick_def)
  have vh: "tl (velocity_history ?s) @ [real (current_velocity ?s)] = replicate 298 0 @ [80, 0]"
    and nh: "tl (note_history ?s) @ [int 62] = replicate 298 (- 1) @ [60, 62]"
    by (simp_all add: example_before_second_tick_def example_after_first_tick_def
        tl_replicate_append)
  show ?thesis
    unfolding update_history_active [OF a ne] vh nh Let_def
    using example_second_cnv by (simp add: example_after_second_tick_def)
qed

subsection \<open>Colour assignment\<close>

lemma handle_event_note_on:
  assumes "is_note_on (d0, d1, d2)"
  shows "note_colors (handle_event (d0, d1, d2) s) =
           (if note_colors s d1 = None
            then (note_colors s)(d1 \<mapsto> NOTE_COLORS ! (color_index s mod length NOTE_COLORS))
            else note_colors s)"
    and "color_index (handle_event (d0, d1, d2) s) =
           (if note_colors s d1 = None then color_index s + 1 else color_index s)"
  using assms by (simp_all add: is_note_on_def Let_def)

lemma handle_event_other:
  assumes "\<not> is_note_on (d0, d1, d2)"
  shows "note_colors (handle_event (d0, d1, d2) s) = note_colors s"
    and "color_index (handle_event (d0, d1, d2) s) = color_index s"
  using assms by (auto simp: is_note_on_def Let_def)

lemma handle_event_keeps_color:
  "note_colors t n = Some c \<Longrightarrow> note_colors (handle_event ev t) n = Some c"
proof (cases ev)
  case (fields d0 d1 d2)
  assume c: "note_colors t n = Some c"
  show ?thesis
  proof (cases "is_note_on (d0, d1, d2)")
    case True
    then show ?thesis using c unfolding fields handle_event_note_on(1) [OF True] by auto
  next
    case False
    then show ?thesis using c unfolding fields handle_event_other(1) [OF False] by simp
  qed
qed

lemma colors_follow_step:
  assumes "colors_follow s ds"
  shows "colors_follow (handle_event ev s)
           (if is_note_on ev \<and> fst (snd ev) \<notin> set ds then ds @ [fst (snd ev)] else ds)"
proof (cases ev)
  case (fields d0 d1 d2)
  have inv: "distinct ds" "dom (note_colors s) = set ds" "color_index s = length ds"
    "\<And>k. k < length ds \<Longrightarrow> note_colors s (ds ! k) = Some (NOTE_COLORS ! (k mod length NOTE_COLORS))"
    using assms by (simp_all add: colors_follow_def)
  have none_iff: "note_colors s d1 = None \<longleftrightarrow> d1 \<notin> set ds"
    using inv(2) domIff [of d1 "note_colors s"] by blast
  show ?thesis
  proof (cases "is_note_on (d0, d1, d2)")
    case False
    then show ?thesis
      using assms unfolding fields colors_follow_def handle_event_other [OF False] by simp
  next
    case True
    show ?thesis
    proof (cases "d1 \<in> set ds")
      case True2: True
      then have nn: "note_colors s d1 \<noteq> None" using none_iff by simp
      have "note_colors (handle_event (d0, d1, d2) s) = note_colors s"
        "color_index (handle_event (d0, d1, d2) s) = color_index s"
        unfolding handle_event_note_on [OF True] using nn by auto
      then show ?thesis
        using assms True2 unfolding fields colors_follow_def by simp
    next
      case new: False
      have nc: "note_colors (handle_event (d0, d1, d2) s) =
          (note_colors s)(d1 \<mapsto> NOTE_COLORS ! (length ds mod length NOTE_COLORS))"
        and ci: "color_index (handle_event (d0, d1, d2) s) = length ds + 1"
        using new none_iff inv(3) unfolding handle_event_note_on [OF True] by simp_all
      have look: "((note_colors s)(d1 \<mapsto> NOTE_COLORS ! (length ds mod length NOTE_COLORS)))
            ((ds @ [d1]) ! k) = Some (NOTE_COLORS ! (k mod length NOTE_COLORS))"
        if "k < length (ds @ [d1])" for k
      proof (cases "k < length ds")
        case True
        then have "ds ! k \<noteq> d1" using new by (metis nth_mem)
        then show ?thesis using True inv(4) [OF True] by (simp add: nth_append)
      next
        case False
        then have "k = length ds" using that by simp
        then show ?thesis by simp
      qed
      show ?thesis
        unfolding fields colors_follow_def nc ci
        using True new inv(1,2) look by auto
    qed
  qed
qed

lemma colors_follow_fold:
  "colors_follow s ds \<Longrightarrow>
   colors_follow (fold handle_event evs s) (seen_order ds (note_on_notes evs))"
proof (induction evs arbitrary: s ds)
  case Nil
  then show ?case by (simp add: note_on_notes_def)
next
  case (Cons ev evs)
  have "seen_order ds (note_on_notes (ev # evs)) =
        seen_order (if is_note_on ev \<and> fst (snd ev) \<notin> set ds then ds @ [fst (snd ev)] else ds)
          (note_on_notes evs)"
    by (simp add: note_on_notes_def)
  then show ?case
    using Cons.IH [OF colors_follow_step [OF Cons.prems, of ev]] by simp
qed

lemma colors_follow_reset: "note_colors s = Map.empty \<Longrightarrow> color_index s = 0 \<Longrightarrow> colors_follow s []"
  by (simp add: colors_follow_def)

lemma distinct_NOTE_COLORS: "distinct NOTE_COLORS" "length NOTE_COLORS = 12"
  by (simp_all add: NOTE_COLORS_def)

section \<open>Properties\<close>

text \<open>
  C1, as the code has it. The loop of the moving average tests the bridged value of a
  sample, not its raw value. In a buffer of MIDI velocities the output of the smoother at
  an interior index \<open>0 < i < N - 1\<close> is the float64 mean of the bridged values at \<open>i - 1\<close>,
  \<open>i\<close>, \<open>i + 1\<close> when the bridged value at \<open>i\<close> is positive, and the bridged value at \<open>i\<close>
  otherwise; at \<open>i = 0\<close> and \<open>i = N - 1\<close> it is the bridged value. The bridged value at \<open>i\<close> is
  positive exactly when the raw value at \<open>i\<close> is non-zero or \<open>i\<close> lies in a bridged gap
  (between two consecutive anchors with at most 20 zeros between them). So the samples of
  a bridged gap, whose raw value is zero, are averaged as well, and the mean is not always
  the bridged value: in the buffer 80, 0, 0, 0, 0, 0, 100 the bridged value at index 1 is
  83.33333333333334 (\<open>2932031007402667 / 2 ^ 45\<close>) and the output there is
  83.33333333333333 (\<open>5864062014805333 / 2 ^ 46\<close>).
\<close>

theorem moving_average_on_bridged_positive:
  assumes "midi_values vh" and "i < length vh"
  shows "velocity_final vh nh ! i =
           (if 0 < i \<and> i < length vh - 1 \<and> velocity_smoothed vh nh ! i > 0
            then mean_of_three (velocity_smoothed vh nh ! (i - 1)) (velocity_smoothed vh nh ! i)
                   (velocity_smoothed vh nh ! (i + 1))
            else velocity_smoothed vh nh ! i)
         \<and> (velocity_smoothed vh nh ! i > 0 \<longleftrightarrow>
              vh ! i \<noteq> 0
              \<or> (\<exists>a b. consecutive_anchors vh a b \<and> b - a - 1 \<le> gap_threshold \<and> a < i \<and> i < b))"
proof
  have "i < length vh - 1 \<longleftrightarrow> i + 1 < length vh" by auto
  then show "velocity_final vh nh ! i =
           (if 0 < i \<and> i < length vh - 1 \<and> velocity_smoothed vh nh ! i > 0
            then mean_of_three (velocity_smoothed vh nh ! (i - 1)) (velocity_smoothed vh nh ! i)
                   (velocity_smoothed vh nh ! (i + 1))
            else velocity_smoothed vh nh ! i)"
    using assms(2) by (simp add: velocity_final_nth)
  show "velocity_smoothed vh nh ! i > 0 \<longleftrightarrow>
          vh ! i \<noteq> 0
          \<or> (\<exists>a b. consecutive_anchors vh a b \<and> b - a - 1 \<le> gap_threshold \<and> a < i \<and> i < b)"
    by (rule velocity_smoothed_positive_iff [OF assms])
qed

theorem moving_average_on_bridged_positive_witness:
  "midi_values [0, 80, 0, 100, 0]
   \<and> consecutive_anchors [0, 80, 0, 100, 0] 1 3
   \<and> velocity_smoothed [0, 80, 0, 100, 0] [- 1, 60, - 1, 62, - 1] ! 2 = 90
   \<and> velocity_final [0, 80, 0, 100, 0] [- 1, 60, - 1, 62, - 1] ! 2 = 90
   \<and> velocity_final [0, 80, 0, 100, 0] [- 1, 60, - 1, 62, - 1] ! 1 = 7975124340135253 / 140737488355328
   \<and> velocity_final [0, 80, 0, 100, 0] [- 1, 60, - 1, 62, - 1] ! 0 = 0
   \<and> velocity_final [0, 80, 0, 100, 0] [- 1, 60, - 1, 62, - 1] ! 4 = 0"
proof -
  let ?vh = "[0, 80, 0, 100, 0::real]"
  let ?nh = "[- 1, 60, - 1, 62, - 1::int]"
  have mv: "midi_values ?vh" by (simp add: midi_values_def)
  have ca: "consecutive_anchors ?vh 1 3" by code_simp
  have small: "3 - 1 - 1 \<le> gap_threshold" by (simp add: gap_threshold_def)
  have s0: "velocity_smoothed ?vh ?nh ! 0 = 0"
    using velocity_smoothed_no_left [of 0 ?vh ?nh] by simp
  have s1: "velocity_smoothed ?vh ?nh ! 1 = 80"
    using velocity_smoothed_anchor [of 1 ?vh ?nh] by simp
  have "velocity_smoothed ?vh ?nh ! 2 = interp_vel (?vh ! 1) (?vh ! 3) (3 - 1 - 1) (2 - 1)"
    by (rule velocity_smoothed_bridged(1) [OF ca small]) simp_all
  moreover have "interp_vel (?vh ! 1) (?vh ! 3) (3 - 1 - 1) (2 - 1) = interp_vel 80 100 1 1"
    by simp
  ultimately have s2: "velocity_smoothed ?vh ?nh ! 2 = 90"
    by (simp only: interp_vel_80_100_1_1)
  have s3: "velocity_smoothed ?vh ?nh ! 3 = 100"
    using velocity_smoothed_anchor [of 3 ?vh ?nh] by simp
  have "\<not> ?vh ! j > 0" if "4 \<le> j" "j < length ?vh" for j
  proof -
    have "j = 4" using that by simp
    then show ?thesis by simp
  qed
  then have s4: "velocity_smoothed ?vh ?nh ! 4 = 0"
    using velocity_smoothed_no_right [of 4 ?vh ?nh] by simp
  note t = moving_average_on_bridged_positive [OF mv, of _ ?nh, THEN conjunct1]
  have i2: "(2::nat) - 1 = 1" "(2::nat) + 1 = 3" and i1: "(1::nat) - 1 = 0" "(1::nat) + 1 = 2"
    by simp_all
  have "velocity_final ?vh ?nh ! 2 = mean_of_three 80 90 100"
    using t [of 2] unfolding i2 s1 s2 s3 by simp
  then have f2: "velocity_final ?vh ?nh ! 2 = 90"
    by (simp only: mean_of_three_80_90_100)
  have "velocity_final ?vh ?nh ! 1 = mean_of_three 0 80 90"
    using t [of 1] unfolding i1 s0 s1 s2 by simp
  then have f1: "velocity_final ?vh ?nh ! 1 = 7975124340135253 / 140737488355328"
    by (simp only: mean_of_three_0_80_90)
  have f0: "velocity_final ?vh ?nh ! 0 = 0"
    using t [of 0] s0 by simp
  have f4: "velocity_final ?vh ?nh ! 4 = 0"
    using t [of 4] s4 by simp
  show ?thesis
    using mv ca s2 f2 f1 f0 f4 by simp
qed

theorem bridged_gap_sample_changed_counterexample:
  "midi_values [80, 0, 0, 0, 0, 0, 100]
   \<and> [80, 0, 0, 0, 0, 0, 100] ! 1 = (0::real)
   \<and> velocity_smoothed [80, 0, 0, 0, 0, 0, 100] [60, - 1, - 1, - 1, - 1, - 1, 62] ! 1
       = 2932031007402667 / 35184372088832
   \<and> velocity_final [80, 0, 0, 0, 0, 0, 100] [60, - 1, - 1, - 1, - 1, - 1, 62] ! 1
       = 5864062014805333 / 70368744177664
   \<and> velocity_final [80, 0, 0, 0, 0, 0, 100] [60, - 1, - 1, - 1, - 1, - 1, 62] ! 1
       \<noteq> velocity_smoothed [80, 0, 0, 0, 0, 0, 100] [60, - 1, - 1, - 1, - 1, - 1, 62] ! 1"
proof -
  let ?vh = "[80, 0, 0, 0, 0, 0, 100::real]"
  let ?nh = "[60, - 1, - 1, - 1, - 1, - 1, 62::int]"
  have ca: "consecutive_anchors ?vh 0 6" by code_simp
  have va: "?vh ! 0 = 80" and vb: "?vh ! 6 = 100" and bd: "(6::nat) = 0 + 6" by simp_all
  have sm: "velocity_smoothed ?vh ?nh ! 1 = 2932031007402667 / 35184372088832"
    using example_gap_smoothed(2) [OF ca va vb bd, of ?nh] by simp
  have fin: "velocity_final ?vh ?nh ! 1 = 5864062014805333 / 70368744177664"
    using example_gap_final(1) [OF ca va vb bd, of ?nh] by simp
  have "(5864062014805333 / 70368744177664 :: real) \<noteq> 2932031007402667 / 35184372088832"
    by simp
  then have "velocity_final ?vh ?nh ! 1 \<noteq> velocity_smoothed ?vh ?nh ! 1"
    unfolding sm fin .
  moreover have "midi_values ?vh" by (simp add: midi_values_def)
  ultimately show ?thesis using sm fin by simp
qed

text \<open>
  C2, as the code has it. A sampling tick taken while a note is active advances the history
  by exactly one sample: the oldest sample is dropped and the sample (current velocity,
  current note) is appended. A tick taken while no note is active returns the state
  unchanged. So "every tick pushes, whatever the state" does not hold: after note 60 has
  been sampled once, the batch "note-off 60; controller 7 = 64" makes the velocity 64 with
  no note active, and the tick leaves the history as it was.
\<close>

theorem tick_pushes_only_while_active:
  assumes "state_ok s"
  shows "\<exists>s'. update_history s = Inr s' \<and>
           (if is_note_active s
            then \<exists>cur. current_note s = Some cur
                   \<and> velocity_history s' = tl (velocity_history s) @ [real (current_velocity s)]
                   \<and> note_history s' = tl (note_history s) @ [int cur]
            else s' = s)"
proof (cases "is_note_active s")
  case False
  then show ?thesis by (simp add: update_history_inactive)
next
  case True
  then obtain cur where cur: "current_note s = Some cur"
    using assms by (auto simp: state_ok_def)
  have ne: "velocity_history s \<noteq> []" "note_history s \<noteq> []"
    using assms by (simp_all add: state_ok_def history_nonempty)
  show ?thesis
    using True cur by (simp add: update_history_active [OF True cur ne] Let_def)
qed

theorem tick_pushes_only_while_active_witness:
  "state_ok init \<and> update_history init = Inr init
   \<and> state_ok (handle_event (144, 60, 80) init)
   \<and> (\<exists>s'. update_history (handle_event (144, 60, 80) init) = Inr s'
        \<and> velocity_history s' = tl (velocity_history init) @ [80]
        \<and> note_history s' = tl (note_history init) @ [60])"
proof -
  let ?s = "handle_event (144, 60, 80) init"
  have ok: "state_ok ?s" by (rule state_ok_handle_event [OF state_ok_init])
  have a: "is_note_active ?s" "current_note ?s = Some 60" "current_velocity ?s = 80"
    "velocity_history ?s = velocity_history init" "note_history ?s = note_history init"
    by (simp_all add: status_on Let_def)
  have i: "\<not> is_note_active init" by (simp add: init_def)
  show ?thesis
    using tick_pushes_only_while_active [OF ok] tick_pushes_only_while_active [OF state_ok_init]
      ok state_ok_init a i
    by auto
qed

theorem tick_without_note_counterexample:
  "process_midi [(144, 60, 80)] init = Inr example_after_first_tick
   \<and> process_midi [(128, 60, 0), (176, 7, 64)] example_after_first_tick =
       Inr (example_after_first_tick\<lparr>is_note_active := False, cc_values := [7 \<mapsto> 64],
                                     current_velocity := 64\<rparr>)
   \<and> velocity_history example_after_first_tick = replicate 299 0 @ [80]
   \<and> replicate 299 0 @ [80] \<noteq> tl (replicate 299 0 @ [80]) @ [real 64]"
proof -
  let ?t = "example_after_first_tick\<lparr>is_note_active := False, cc_values := [7 \<mapsto> 64],
                                     current_velocity := 64\<rparr>"
  have 1: "handle_event (128, 60, 0) example_after_first_tick =
      example_after_first_tick\<lparr>is_note_active := False\<rparr>"
    by (simp add: status_off Let_def example_after_first_tick_def)
  have 2: "handle_event (176, 7, 64) (example_after_first_tick\<lparr>is_note_active := False\<rparr>) = ?t"
    by (simp add: status_cc Let_def example_after_first_tick_def init_def)
  have ev: "fold handle_event [(128, 60, 0), (176, 7, 64)] example_after_first_tick = ?t"
    by (simp only: fold.simps id_apply comp_apply 1 2)
  have "\<not> is_note_active ?t" by simp
  then have p: "process_midi [(128, 60, 0), (176, 7, 64)] example_after_first_tick = Inr ?t"
    unfolding process_midi_def ev by (rule update_history_inactive)
  have "last (replicate 299 0 @ [80::real]) \<noteq> last (tl (replicate 299 0 @ [80]) @ [real 64])"
    by simp
  then have ne: "replicate 299 0 @ [80] \<noteq> tl (replicate 299 0 @ [80]) @ [real 64]"
    by metis
  show ?thesis
    using example_first_tick p ne by (simp add: example_after_first_tick_def)
qed

text \<open>
  C3, as the code has it. When the statistics are recomputed and the filtered subset of the
  current note is empty, the statistics keep the values they had before the tick. They are
  not reset to zero: after note 60 at velocity 80 has been sampled, a tick for note 62 with
  velocity 0 finds an empty subset and still reports mean 80, minimum 80, maximum 80.
\<close>

theorem empty_subset_keeps_stats:
  assumes "is_note_active s" and "current_note s = Some cur"
    and "update_history s = Inr s'"
    and "current_note_velocities (velocity_history s') (note_history s') (int cur) = []"
  shows "stats_of s' = stats_of s"
  using assms
  by (auto simp: update_history_def Let_def split: sum.splits if_splits)

theorem empty_subset_keeps_stats_witness:
  "is_note_active example_before_second_tick
   \<and> current_note example_before_second_tick = Some 62
   \<and> update_history example_before_second_tick = Inr example_after_second_tick
   \<and> current_note_velocities (velocity_history example_after_second_tick)
        (note_history example_after_second_tick) (int 62) = []
   \<and> stats_of example_after_second_tick = stats_of example_before_second_tick"
proof -
  have a: "is_note_active example_before_second_tick"
    "current_note example_before_second_tick = Some 62"
    by (simp_all add: example_before_second_tick_def example_after_first_tick_def)
  have c: "current_note_velocities (velocity_history example_after_second_tick)
        (note_history example_after_second_tick) (int 62) = []"
    using example_second_cnv by (simp add: example_after_second_tick_def)
  show ?thesis
    using empty_subset_keeps_stats [OF a example_second_update c] a example_second_update c
    by simp
qed

theorem stale_stats_counterexample:
  "process_midi [(144, 60, 80)] init = Inr example_after_first_tick
   \<and> process_midi [(144, 62, 50), (176, 7, 0)] example_after_first_tick = Inr example_after_second_tick
   \<and> is_note_active example_after_second_tick
   \<and> current_note example_after_second_tick = Some 62
   \<and> current_note_velocities (velocity_history example_after_second_tick)
        (note_history example_after_second_tick) 62 = []
   \<and> stats_of example_after_second_tick = \<lparr>mean = 80, std_dev = 0, min_v = 80, max_v = 80\<rparr>
   \<and> mean (stats_of example_after_second_tick) \<noteq> 0"
proof -
  have "process_midi [(144, 62, 50), (176, 7, 0)] example_after_first_tick = Inr example_after_second_tick"
    unfolding process_midi_def example_second_events by (rule example_second_update)
  then show ?thesis
    using example_first_tick example_second_cnv
    by (simp add: example_after_second_tick_def example_before_second_tick_def
        example_after_first_tick_def)
qed

text \<open>
  C4. In a buffer of MIDI velocities, between two consecutive anchors with a gap of at most
  20 zero samples, the bridging pass replaces every gap sample by the larger of the
  interpolated value and the floor. The interpolated value is the float64 value of
  \<open>start * (1 - alpha) + end * alpha\<close> with \<open>alpha = (k - a) / (b - a)\<close>; it differs from the
  exact linear interpolation by at most \<open>max start end / 2 ^ 49\<close>. The floor is the float64
  product of the smaller anchor and 0.7; it differs from 0.7 times the smaller anchor by at
  most \<open>min start end / 2 ^ 52\<close>. The output of the smoother at a gap sample is the mean of
  the three bridged values around it.

  With the anchors 80 and 100 and 5 zeros between them the floor is 56, the five bridged
  values are 83.33333333333334, 86.66666666666667, 90, 93.33333333333333,
  96.66666666666667 and the five output values are 83.33333333333333, 86.66666666666667,
  90, 93.33333333333333, 96.66666666666667 (given below as fractions): after both passes
  the values increase strictly, lie strictly between 80 and 100 and are at least 56.

  Zero samples before the first anchor or after the last one stay zero in both passes.
\<close>

theorem gap_bridging:
  "(midi_values vh \<and> consecutive_anchors vh a b \<and> b - a - 1 \<le> gap_threshold \<and> a < k \<and> k < b \<longrightarrow>
      velocity_smoothed vh nh ! k =
        max (interp_vel (vh ! a) (vh ! b) (b - a - 1) (k - a))
            (min_transition_velocity (vh ! a) (vh ! b))
      \<and> \<bar>interp_vel (vh ! a) (vh ! b) (b - a - 1) (k - a)
          - (vh ! a * (1 - real (k - a) / real (b - a)) + vh ! b * (real (k - a) / real (b - a)))\<bar>
        \<le> max (vh ! a) (vh ! b) / 2 ^ 49
      \<and> \<bar>min_transition_velocity (vh ! a) (vh ! b) - 7 / 10 * min (vh ! a) (vh ! b)\<bar>
        \<le> min (vh ! a) (vh ! b) / 2 ^ 52
      \<and> velocity_final vh nh ! k =
          mean_of_three (velocity_smoothed vh nh ! (k - 1)) (velocity_smoothed vh nh ! k)
            (velocity_smoothed vh nh ! (k + 1)))
   \<and> (consecutive_anchors vh a b \<and> vh ! a = 80 \<and> vh ! b = 100 \<and> b = a + 6 \<longrightarrow>
      min_transition_velocity (vh ! a) (vh ! b) = 56
      \<and> map (\<lambda>j. velocity_smoothed vh nh ! (a + j)) [1, 2, 3, 4, 5] =
          [2932031007402667 / 35184372088832, 6098624495397547 / 70368744177664, 90,
           6567749456581973 / 70368744177664, 6802311937174187 / 70368744177664]
      \<and> map (\<lambda>j. velocity_final vh nh ! (a + j)) [1, 2, 3, 4, 5] =
          [5864062014805333 / 70368744177664, 6098624495397547 / 70368744177664, 90,
           6567749456581973 / 70368744177664, 6802311937174187 / 70368744177664])
   \<and> (consecutive_anchors vh a b \<and> vh ! a = 80 \<and> vh ! b = 100 \<and> b = a + 6 \<and> 1 \<le> j \<and> j \<le> 5 \<longrightarrow>
      80 < velocity_smoothed vh nh ! (a + j) \<and> velocity_smoothed vh nh ! (a + j) < 100
      \<and> 56 \<le> velocity_smoothed vh nh ! (a + j)
      \<and> (j < 5 \<longrightarrow> velocity_smoothed vh nh ! (a + j) < velocity_smoothed vh nh ! (a + (j + 1)))
      \<and> 80 < velocity_final vh nh ! (a + j) \<and> velocity_final vh nh ! (a + j) < 100
      \<and> 56 \<le> velocity_final vh nh ! (a + j)
      \<and> (j < 5 \<longrightarrow> velocity_final vh nh ! (a + j) < velocity_final vh nh ! (a + (j + 1))))
   \<and> (m < length vh \<and> list_all (\<lambda>j. vh ! j = 0) [0..<m + 1] \<longrightarrow>
      velocity_smoothed vh nh ! m = 0 \<and> velocity_final vh nh ! m = 0)
   \<and> (n < length vh \<and> list_all (\<lambda>j. vh ! j = 0) [n..<length vh] \<longrightarrow>
      velocity_smoothed vh nh ! n = 0 \<and> velocity_final vh nh ! n = 0)"
proof -
  have p1: "velocity_smoothed vh nh ! k =
        max (interp_vel (vh ! a) (vh ! b) (b - a - 1) (k - a))
            (min_transition_velocity (vh ! a) (vh ! b))
      \<and> \<bar>interp_vel (vh ! a) (vh ! b) (b - a - 1) (k - a)
          - (vh ! a * (1 - real (k - a) / real (b - a)) + vh ! b * (real (k - a) / real (b - a)))\<bar>
        \<le> max (vh ! a) (vh ! b) / 2 ^ 49
      \<and> \<bar>min_transition_velocity (vh ! a) (vh ! b) - 7 / 10 * min (vh ! a) (vh ! b)\<bar>
        \<le> min (vh ! a) (vh ! b) / 2 ^ 52
      \<and> velocity_final vh nh ! k =
          mean_of_three (velocity_smoothed vh nh ! (k - 1)) (velocity_smoothed vh nh ! k)
            (velocity_smoothed vh nh ! (k + 1))"
    if h: "midi_values vh \<and> consecutive_anchors vh a b \<and> b - a - 1 \<le> gap_threshold \<and> a < k \<and> k < b"
  proof -
    have ca: "consecutive_anchors vh a b" and small: "b - a - 1 \<le> gap_threshold"
      and k: "a < k" "k < b"
      using h by blast+
    note c = consecutive_anchorsD [OF ca]
    have j: "k - a \<le> b - a - 1" using k by simp
    have g: "b - a - 1 \<le> 20" using small by (simp add: gap_threshold_def)
    have d: "b - a - 1 + 1 = b - a" using c(1) by simp
    have 1: "velocity_smoothed vh nh ! k =
        max (interp_vel (vh ! a) (vh ! b) (b - a - 1) (k - a))
            (min_transition_velocity (vh ! a) (vh ! b))"
      using velocity_smoothed_gap [OF c(1-4) c(6) k, of nh] small by simp
    have 2: "\<bar>interp_vel (vh ! a) (vh ! b) (b - a - 1) (k - a)
          - (vh ! a * (1 - real (k - a) / real (b - a)) + vh ! b * (real (k - a) / real (b - a)))\<bar>
        \<le> max (vh ! a) (vh ! b) / 2 ^ 49"
      using interp_vel_close [OF c(3,4) j g] unfolding d .
    have 3: "\<bar>min_transition_velocity (vh ! a) (vh ! b) - 7 / 10 * min (vh ! a) (vh ! b)\<bar>
        \<le> min (vh ! a) (vh ! b) / 2 ^ 52"
      using min_transition_velocity_close [OF c(3,4)] .
    have 4: "velocity_final vh nh ! k =
          mean_of_three (velocity_smoothed vh nh ! (k - 1)) (velocity_smoothed vh nh ! k)
            (velocity_smoothed vh nh ! (k + 1))"
      using velocity_final_bridged [OF ca small k] .
    show ?thesis using 1 2 3 4 by blast
  qed
  have p2: "min_transition_velocity (vh ! a) (vh ! b) = 56
      \<and> map (\<lambda>j. velocity_smoothed vh nh ! (a + j)) [1, 2, 3, 4, 5] =
          [2932031007402667 / 35184372088832, 6098624495397547 / 70368744177664, 90,
           6567749456581973 / 70368744177664, 6802311937174187 / 70368744177664]
      \<and> map (\<lambda>j. velocity_final vh nh ! (a + j)) [1, 2, 3, 4, 5] =
          [5864062014805333 / 70368744177664, 6098624495397547 / 70368744177664, 90,
           6567749456581973 / 70368744177664, 6802311937174187 / 70368744177664]"
    if h: "consecutive_anchors vh a b \<and> vh ! a = 80 \<and> vh ! b = 100 \<and> b = a + 6"
  proof -
    have ca: "consecutive_anchors vh a b" and va: "vh ! a = 80" and vb: "vh ! b = 100"
      and bd: "b = a + 6"
      using h by blast+
    have "min_transition_velocity (vh ! a) (vh ! b) = 56"
      unfolding va vb by (rule min_transition_velocity_80_100)
    moreover have "map (\<lambda>j. velocity_smoothed vh nh ! (a + j)) [1, 2, 3, 4, 5] =
          [2932031007402667 / 35184372088832, 6098624495397547 / 70368744177664, 90,
           6567749456581973 / 70368744177664, 6802311937174187 / 70368744177664]"
      using example_gap_smoothed [OF ca va vb bd, of nh] by simp
    moreover have "map (\<lambda>j. velocity_final vh nh ! (a + j)) [1, 2, 3, 4, 5] =
          [5864062014805333 / 70368744177664, 6098624495397547 / 70368744177664, 90,
           6567749456581973 / 70368744177664, 6802311937174187 / 70368744177664]"
      using example_gap_final [OF ca va vb bd, of nh] by simp
    ultimately show ?thesis by blast
  qed
  have p3: "80 < velocity_smoothed vh nh ! (a + j) \<and> velocity_smoothed vh nh ! (a + j) < 100
      \<and> 56 \<le> velocity_smoothed vh nh ! (a + j)
      \<and> (j < 5 \<longrightarrow> velocity_smoothed vh nh ! (a + j) < velocity_smoothed vh nh ! (a + (j + 1)))
      \<and> 80 < velocity_final vh nh ! (a + j) \<and> velocity_final vh nh ! (a + j) < 100
      \<and> 56 \<le> velocity_final vh nh ! (a + j)
      \<and> (j < 5 \<longrightarrow> velocity_final vh nh ! (a + j) < velocity_final vh nh ! (a + (j + 1)))"
    if h: "consecutive_anchors vh a b \<and> vh ! a = 80 \<and> vh ! b = 100 \<and> b = a + 6 \<and> 1 \<le> j \<and> j \<le> 5"
  proof -
    have ca: "consecutive_anchors vh a b" and va: "vh ! a = 80" and vb: "vh ! b = 100"
      and bd: "b = a + 6" and j: "1 \<le> j" "j \<le> 5"
      using h by blast+
    show ?thesis
      using example_gap_increasing [OF ca va vb bd j, of nh] by blast
  qed
  have p4: "velocity_smoothed vh nh ! m = 0 \<and> velocity_final vh nh ! m = 0"
    if h: "m < length vh \<and> list_all (\<lambda>j. vh ! j = 0) [0..<m + 1]"
  proof -
    have z0: "vh ! j = 0" if "j \<le> m" for j
    proof -
      have "j \<in> set [0..<m + 1]" using that by auto
      then show ?thesis using h unfolding list_all_iff by blast
    qed
    then have z: "\<And>j. j \<le> m \<Longrightarrow> \<not> vh ! j > 0" by simp
    have "vh ! m = 0" using z0 by simp
    then have sm: "velocity_smoothed vh nh ! m = 0"
      using velocity_smoothed_no_left [of m vh nh] z h by simp
    then show ?thesis using h by (simp add: velocity_final_nth)
  qed
  have p5: "velocity_smoothed vh nh ! n = 0 \<and> velocity_final vh nh ! n = 0"
    if h: "n < length vh \<and> list_all (\<lambda>j. vh ! j = 0) [n..<length vh]"
  proof -
    have z0: "vh ! j = 0" if "n \<le> j" "j < length vh" for j
    proof -
      have "j \<in> set [n..<length vh]" using that by auto
      then show ?thesis using h unfolding list_all_iff by blast
    qed
    then have z: "\<And>j. n \<le> j \<Longrightarrow> j < length vh \<Longrightarrow> \<not> vh ! j > 0" by simp
    have "vh ! n = 0" using z0 h by simp
    then have sm: "velocity_smoothed vh nh ! n = 0"
      using velocity_smoothed_no_right [of n vh nh] z h by simp
    then show ?thesis using h by (simp add: velocity_final_nth)
  qed
  show ?thesis
    using p1 p2 p3 p4 p5 by blast
qed

theorem gap_bridging_witness:
  "midi_values [0, 80, 0, 0, 0, 0, 0, 100, 0]
   \<and> consecutive_anchors [0, 80, 0, 0, 0, 0, 0, 100, 0] 1 7
   \<and> velocity_smoothed [0, 80, 0, 0, 0, 0, 0, 100, 0] [- 1, 60, - 1, - 1, - 1, - 1, - 1, 62, - 1] ! 4 = 90
   \<and> velocity_final [0, 80, 0, 0, 0, 0, 0, 100, 0] [- 1, 60, - 1, - 1, - 1, - 1, - 1, 62, - 1] ! 2
       = 5864062014805333 / 70368744177664
   \<and> velocity_final [0, 80, 0, 0, 0, 0, 0, 100, 0] [- 1, 60, - 1, - 1, - 1, - 1, - 1, 62, - 1] ! 4
       < velocity_final [0, 80, 0, 0, 0, 0, 0, 100, 0] [- 1, 60, - 1, - 1, - 1, - 1, - 1, 62, - 1] ! 5
   \<and> velocity_final [0, 80, 0, 0, 0, 0, 0, 100, 0] [- 1, 60, - 1, - 1, - 1, - 1, - 1, 62, - 1] ! 0 = 0
   \<and> velocity_final [0, 80, 0, 0, 0, 0, 0, 100, 0] [- 1, 60, - 1, - 1, - 1, - 1, - 1, 62, - 1] ! 8 = 0"
proof -
  let ?vh = "[0, 80, 0, 0, 0, 0, 0, 100, 0::real]"
  let ?nh = "[- 1, 60, - 1, - 1, - 1, - 1, - 1, 62, - 1::int]"
  have mv: "midi_values ?vh" by (simp add: midi_values_def)
  have ca: "consecutive_anchors ?vh 1 7" by code_simp
  have lead: "list_all (\<lambda>j. ?vh ! j = 0) [0..<0 + 1]" by code_simp
  have trail: "list_all (\<lambda>j. ?vh ! j = 0) [8..<length ?vh]" by code_simp
  have small: "7 - 1 - 1 \<le> gap_threshold" by (simp add: gap_threshold_def)
  note g = gap_bridging [where vh = ?vh and nh = ?nh and a = 1 and b = 7 and k = 4 and j = 3
      and m = 0 and n = 8]
  have c1: "midi_values ?vh \<and> consecutive_anchors ?vh 1 7 \<and> 7 - 1 - 1 \<le> gap_threshold
      \<and> (1::nat) < 4 \<and> (4::nat) < 7"
    using mv ca small by simp
  have c2: "consecutive_anchors ?vh 1 7 \<and> ?vh ! 1 = 80 \<and> ?vh ! 7 = 100 \<and> (7::nat) = 1 + 6"
    using ca by simp
  have c3: "consecutive_anchors ?vh 1 7 \<and> ?vh ! 1 = 80 \<and> ?vh ! 7 = 100 \<and> (7::nat) = 1 + 6
      \<and> (1::nat) \<le> 3 \<and> (3::nat) \<le> 5"
    using ca by simp
  have c4: "0 < length ?vh \<and> list_all (\<lambda>j. ?vh ! j = 0) [0..<0 + 1]"
    using lead by simp
  have c5: "8 < length ?vh \<and> list_all (\<lambda>j. ?vh ! j = 0) [8..<length ?vh]"
    using trail by simp
  note g1 = g [THEN conjunct1, THEN mp, OF c1]
  note g2 = g [THEN conjunct2, THEN conjunct1, THEN mp, OF c2]
  note g3 = g [THEN conjunct2, THEN conjunct2, THEN conjunct1, THEN mp, OF c3]
  note g4 = g [THEN conjunct2, THEN conjunct2, THEN conjunct2, THEN conjunct1, THEN mp, OF c4]
  note g5 = g [THEN conjunct2, THEN conjunct2, THEN conjunct2, THEN conjunct2, THEN mp, OF c5]
  have "velocity_smoothed ?vh ?nh ! 4 =
          max (interp_vel (?vh ! 1) (?vh ! 7) (7 - 1 - 1) (4 - 1))
              (min_transition_velocity (?vh ! 1) (?vh ! 7))"
    using g1 by (rule conjunct1)
  moreover have "max (interp_vel (?vh ! 1) (?vh ! 7) (7 - 1 - 1) (4 - 1))
              (min_transition_velocity (?vh ! 1) (?vh ! 7))
          = max (interp_vel 80 100 5 3) (min_transition_velocity 80 100)"
    by simp
  ultimately have s4: "velocity_smoothed ?vh ?nh ! 4 = 90"
    by (simp only: interp_vel_80_100_5_3 min_transition_velocity_80_100)
  have "map (\<lambda>j. velocity_final ?vh ?nh ! (1 + j)) [1, 2, 3, 4, 5] =
          [5864062014805333 / 70368744177664, 6098624495397547 / 70368744177664, 90,
           6567749456581973 / 70368744177664, 6802311937174187 / 70368744177664]"
    using g2 by blast
  then have "velocity_final ?vh ?nh ! (1 + 1) = 5864062014805333 / 70368744177664"
    by (simp only: list.map list.inject)
  moreover have "(1::nat) + 1 = 2" by simp
  ultimately have f2: "velocity_final ?vh ?nh ! 2 = 5864062014805333 / 70368744177664"
    by (simp only:)
  have "(3::nat) < 5 \<longrightarrow> velocity_final ?vh ?nh ! (1 + 3) < velocity_final ?vh ?nh ! (1 + (3 + 1))"
    using g3 by blast
  moreover have "(3::nat) < 5" "(1::nat) + 3 = 4" "(1::nat) + (3 + 1) = 5" by simp_all
  ultimately have f45: "velocity_final ?vh ?nh ! 4 < velocity_final ?vh ?nh ! 5"
    by (simp only:)
  have f0: "velocity_final ?vh ?nh ! 0 = 0"
    using g4 by (rule conjunct2)
  have f8: "velocity_final ?vh ?nh ! 8 = 0"
    using g5 by (rule conjunct2)
  show ?thesis
    using mv ca s4 f2 f45 f0 f8 by simp
qed

text \<open>
  C5. Between two consecutive anchors with more than 20 zero samples between them, every
  gap sample is zero after the bridging pass and zero in the final output; the witness is
  a gap of 25 zeros.
\<close>

theorem long_gap_left_zero:
  assumes "consecutive_anchors vh a b" and "gap_threshold < b - a - 1" and "a < k" and "k < b"
  shows "velocity_smoothed vh nh ! k = 0 \<and> velocity_final vh nh ! k = 0"
proof -
  note ca = consecutive_anchorsD [OF assms(1)]
  have "velocity_smoothed vh nh ! k = vh ! k"
    using velocity_smoothed_gap [OF ca(1-4) ca(6) assms(3,4), of nh] assms(2) by simp
  then have sm: "velocity_smoothed vh nh ! k = 0" using ca(5) assms(3,4) by simp
  moreover have "k < length vh" using assms(4) ca(2) by simp
  ultimately show ?thesis by (simp add: velocity_final_nth)
qed

theorem long_gap_left_zero_witness:
  "consecutive_anchors (80 # replicate 25 0 @ [100]) 0 26
   \<and> gap_threshold < 26 - 0 - 1
   \<and> velocity_smoothed (80 # replicate 25 0 @ [100]) (60 # replicate 25 (- 1) @ [62]) ! 13 = 0
   \<and> velocity_final (80 # replicate 25 0 @ [100]) (60 # replicate 25 (- 1) @ [62]) ! 13 = 0"
proof -
  have ca: "consecutive_anchors (80 # replicate 25 0 @ [100]) 0 26" by code_simp
  have g: "gap_threshold < 26 - 0 - 1" by (simp add: gap_threshold_def)
  show ?thesis
    using long_gap_left_zero [OF ca g, of 13 "60 # replicate 25 (- 1) @ [62]"] ca g by simp
qed

text \<open>
  C6. From a state whose histories have length 300, every \<open>process_midi\<close> returns a state
  whose histories have length 300. A history update keeps both lengths; when a note is
  active it drops the oldest sample of each history and appends the sample (current
  velocity, current note), and otherwise it changes nothing. \<open>clear\<close> sets every slot to
  (0, -1), empties the colour table and sets the round-robin index to 0. In the witness
  the state holds the sample (80, 60), one colour and the index 1 before \<open>clear\<close>.
\<close>

theorem history_length_constant:
  assumes "state_ok s"
  shows "(\<exists>s'. process_midi evs s = Inr s'
            \<and> length (velocity_history s') = HISTORY_LENGTH
            \<and> length (note_history s') = HISTORY_LENGTH)
         \<and> (\<exists>s'. update_history s = Inr s'
            \<and> length (velocity_history s') = length (velocity_history s)
            \<and> length (note_history s') = length (note_history s)
            \<and> (if is_note_active s
                then \<exists>cur. current_note s = Some cur
                   \<and> velocity_history s' = tl (velocity_history s) @ [real (current_velocity s)]
                   \<and> note_history s' = tl (note_history s) @ [int cur]
                else s' = s))
         \<and> velocity_history (clear s) = replicate HISTORY_LENGTH 0
         \<and> note_history (clear s) = replicate HISTORY_LENGTH (- 1)
         \<and> zip (velocity_history (clear s)) (note_history (clear s)) = replicate HISTORY_LENGTH (0, - 1)
         \<and> note_colors (clear s) = Map.empty
         \<and> color_index (clear s) = 0"
proof -
  obtain s1 where s1: "process_midi evs s = Inr s1" "state_ok s1"
    using state_ok_process_midi [OF assms] by blast
  have p1: "\<exists>s'. process_midi evs s = Inr s'
            \<and> length (velocity_history s') = HISTORY_LENGTH
            \<and> length (note_history s') = HISTORY_LENGTH"
    using s1 by (auto simp: state_ok_def)
  have ne: "velocity_history s \<noteq> []" "note_history s \<noteq> []"
    using assms by (simp_all add: state_ok_def history_nonempty)
  have p2: "\<exists>s'. update_history s = Inr s'
            \<and> length (velocity_history s') = length (velocity_history s)
            \<and> length (note_history s') = length (note_history s)
            \<and> (if is_note_active s
                then \<exists>cur. current_note s = Some cur
                   \<and> velocity_history s' = tl (velocity_history s) @ [real (current_velocity s)]
                   \<and> note_history s' = tl (note_history s) @ [int cur]
                else s' = s)"
  proof (cases "is_note_active s")
    case False
    then show ?thesis by (simp add: update_history_inactive)
  next
    case True
    then obtain cur where cur: "current_note s = Some cur"
      using assms by (auto simp: state_ok_def)
    show ?thesis
      using True cur ne length_tl_snoc [OF ne(1)] length_tl_snoc [OF ne(2)]
      by (simp add: update_history_active [OF True cur ne] Let_def del: length_append)
  qed
  have p3: "zip (velocity_history (clear s)) (note_history (clear s)) = replicate HISTORY_LENGTH (0, - 1)"
    by (simp add: clear_def zip_replicate)
  show ?thesis
    using p1 p2 p3 by (simp add: clear_def)
qed

theorem history_length_constant_witness:
  "state_ok example_after_first_tick
   \<and> (\<exists>s'. process_midi [(176, 7, 64)] example_after_first_tick = Inr s'
        \<and> length (velocity_history s') = HISTORY_LENGTH
        \<and> length (note_history s') = HISTORY_LENGTH)
   \<and> (\<exists>s'. update_history example_after_first_tick = Inr s'
        \<and> velocity_history s' = replicate 298 0 @ [80, 80]
        \<and> note_history s' = replicate 298 (- 1) @ [60, 60])
   \<and> velocity_history example_after_first_tick = replicate 299 0 @ [80]
   \<and> note_history example_after_first_tick = replicate 299 (- 1) @ [60]
   \<and> note_colors example_after_first_tick 60 = Some (65, 156, 255)
   \<and> color_index example_after_first_tick = 1
   \<and> velocity_history (clear example_after_first_tick) = replicate HISTORY_LENGTH 0
   \<and> note_history (clear example_after_first_tick) = replicate HISTORY_LENGTH (- 1)
   \<and> note_colors (clear example_after_first_tick) = Map.empty
   \<and> color_index (clear example_after_first_tick) = 0"
proof -
  let ?s = example_after_first_tick
  note ok = state_ok_example_after_first_tick
  note t = history_length_constant [OF ok, of "[(176, 7, 64)]"]
  have a: "is_note_active ?s" "current_note ?s = Some 60" "current_velocity ?s = 80"
    "velocity_history ?s = replicate 299 0 @ [80]" "note_history ?s = replicate 299 (- 1) @ [60]"
    "note_colors ?s 60 = Some (65, 156, 255)" "color_index ?s = 1"
    by (simp_all add: example_after_first_tick_def)
  have tls: "tl (replicate 299 0 @ [80::real]) @ [real 80] = replicate 298 0 @ [80, 80]"
    "tl (replicate 299 (- 1) @ [60::int]) @ [int 60] = replicate 298 (- 1) @ [60, 60]"
    by (simp_all add: tl_replicate_append)
  have push: "\<exists>s'. update_history ?s = Inr s'
        \<and> velocity_history s' = replicate 298 0 @ [80, 80]
        \<and> note_history s' = replicate 298 (- 1) @ [60, 60]"
    using t a tls by auto
  show ?thesis
    using t ok a push by simp
qed

text \<open>
  C7. After a history update with an active note, if the samples of the new history whose
  note is the current note and whose velocity is non-zero form a non-empty list \<open>sub\<close>, then
  the statistics are the mean, the population standard deviation, the minimum and the
  maximum of \<open>sub\<close>. In the witness the history holds a sample of note 62 and the samples
  60, 70, 80 of the current note 60: the mean is 70, the minimum 60, the maximum 80 and the
  standard deviation \<open>sqrt (200 / 3)\<close>, between 8.164 and 8.166.
\<close>

theorem stats_of_current_note:
  assumes "state_ok s" and "is_note_active s" and "current_note s = Some cur"
    and "update_history s = Inr s'"
    and "sub = map fst (filter (\<lambda>(v, n). n = int cur \<and> v \<noteq> 0)
                         (zip (velocity_history s') (note_history s')))"
    and "sub \<noteq> []"
  shows "mean (stats_of s') = sum_list sub / real (length sub)
         \<and> std_dev (stats_of s') =
             sqrt ((\<Sum>x\<leftarrow>sub. (x - sum_list sub / real (length sub))\<^sup>2) / real (length sub))
         \<and> min_v (stats_of s') = Min (set sub)
         \<and> max_v (stats_of s') = Max (set sub)"
proof -
  have ne: "velocity_history s \<noteq> []" "note_history s \<noteq> []"
    using assms(1) by (simp_all add: state_ok_def history_nonempty)
  obtain s2 where s2: "update_history s = Inr s2" "state_ok s2"
    using state_ok_update_history [OF assms(1)] by blast
  then have ok': "list_all (\<lambda>v. 0 \<le> v) (velocity_history s')"
    using assms(4) by (simp add: state_ok_def)
  define vh where "vh = tl (velocity_history s) @ [real (current_velocity s)]"
  define nh where "nh = tl (note_history s) @ [int cur]"
  have upd: "update_history s =
      (if current_note_velocities vh nh (int cur) \<noteq> []
       then Inr (s\<lparr>velocity_history := vh, note_history := nh,
                   stats_of := \<lparr>mean = np_mean (current_note_velocities vh nh (int cur)),
                                std_dev = np_std (current_note_velocities vh nh (int cur)),
                                min_v = np_min (current_note_velocities vh nh (int cur)),
                                max_v = np_max (current_note_velocities vh nh (int cur))\<rparr>\<rparr>)
       else Inr (s\<lparr>velocity_history := vh, note_history := nh\<rparr>))"
    by (simp add: update_history_active [OF assms(2,3) ne] Let_def vh_def nh_def)
  have hist: "velocity_history s' = vh" "note_history s' = nh"
    using assms(4) upd by (auto split: if_splits)
  have sub: "current_note_velocities vh nh (int cur) = sub"
    using cnv_as_one_filter [of vh nh "int cur"] ok' hist assms(5) by simp
  then have st: "stats_of s' = \<lparr>mean = np_mean sub, std_dev = np_std sub,
                                min_v = np_min sub, max_v = np_max sub\<rparr>"
    using assms(4,6) upd by auto
  show ?thesis
    using assms(6)
    by (simp add: st np_mean_def np_std_def np_min_Min np_max_Max comp_def)
qed

theorem stats_of_current_note_witness:
  "state_ok example_three_samples
   \<and> is_note_active example_three_samples
   \<and> current_note example_three_samples = Some 60
   \<and> (\<exists>s'. update_history example_three_samples = Inr s'
        \<and> map fst (filter (\<lambda>(v, n). n = 60 \<and> v \<noteq> 0)
             (zip (velocity_history s') (note_history s'))) = [60, 70, 80]
        \<and> mean (stats_of s') = 70 \<and> min_v (stats_of s') = 60 \<and> max_v (stats_of s') = 80
        \<and> std_dev (stats_of s') = sqrt (200 / 3)
        \<and> 8.164 < std_dev (stats_of s') \<and> std_dev (stats_of s') < 8.166)"
proof -
  let ?s = example_three_samples
  have ok: "state_ok ?s"
    by (simp add: state_ok_def example_three_samples_def init_def HISTORY_LENGTH_def list_all_iff)
  have a: "is_note_active ?s" "current_note ?s = Some 60"
    by (simp_all add: example_three_samples_def)
  have ne: "velocity_history ?s \<noteq> []" "note_history ?s \<noteq> []"
    by (simp_all add: example_three_samples_def)
  obtain s' where s': "update_history ?s = Inr s'"
    using state_ok_update_history [OF ok] by blast
  have vh: "velocity_history s' = replicate 296 0 @ [50, 60, 70, 80]"
    using update_history_histories(1) [OF a ne s']
    by (simp add: example_three_samples_def tl_replicate_append)
  have nh: "note_history s' = replicate 296 (- 1) @ [62, 60, 60, 60]"
    using update_history_histories(2) [OF a ne s']
    by (simp add: example_three_samples_def tl_replicate_append)
  have sub: "map fst (filter (\<lambda>(v, n). n = int 60 \<and> v \<noteq> 0)
             (zip (velocity_history s') (note_history s'))) = [60, 70, 80]"
    by (simp add: vh nh)
  have st: "mean (stats_of s') = 70 \<and> std_dev (stats_of s') = sqrt (200 / 3)
      \<and> min_v (stats_of s') = 60 \<and> max_v (stats_of s') = 80"
    using stats_of_current_note [OF ok a s' sub [symmetric]] by (simp add: power2_eq_square)
  show ?thesis
    using ok a s' sub st sqrt_200_3 by auto
qed

text \<open>
  C8. The consistency score computed in \<open>render\<close>, \<open>100 - min(100, std_dev * 5)\<close> when the
  mean is positive and 0 otherwise, equals the specification's \<open>max(0, 100 - 5 * std_dev)\<close>
  when the mean is positive and 0 otherwise, for every standard deviation and mean.
\<close>

theorem consistency_score_refines_spec:
  "consistency_score st = spec_consistency_score (mean st) (std_dev st)"
  by (simp add: consistency_score_def spec_consistency_score_def min_def max_def)

text \<open>
  C9. Starting from an empty colour table with index 0 (the initial state, or the state
  after \<open>clear\<close>), after any batch of events the \<open>k\<close>-th distinct note of the note-on events
  (in order of first appearance) has the palette colour \<open>k mod 12\<close>. The palette has 12
  pairwise distinct entries, so the first 12 distinct notes have pairwise distinct colours
  and the 13th has the colour of palette index 0, the same as the first. No event changes
  the colour of a note that already has one.
\<close>

theorem colors_round_robin:
  assumes "note_colors s = Map.empty" and "color_index s = 0"
    and "ds = seen_order [] (note_on_notes evs)"
    and "s' = fold handle_event evs s"
  shows "distinct ds
         \<and> (\<forall>k<length ds. note_colors s' (ds ! k) = Some (NOTE_COLORS ! (k mod 12)))
         \<and> length NOTE_COLORS = 12 \<and> distinct NOTE_COLORS
         \<and> (\<forall>j k. j < k \<and> k < 12 \<and> k < length ds \<longrightarrow>
               note_colors s' (ds ! j) \<noteq> note_colors s' (ds ! k))
         \<and> (12 < length ds \<longrightarrow>
               note_colors s' (ds ! 12) = Some (NOTE_COLORS ! 0)
               \<and> note_colors s' (ds ! 12) = note_colors s' (ds ! 0))
         \<and> (\<forall>ev n c. note_colors s' n = Some c \<longrightarrow> note_colors (handle_event ev s') n = Some c)"
proof -
  have cf: "colors_follow s' ds"
    unfolding assms(3,4) by (rule colors_follow_fold [OF colors_follow_reset [OF assms(1,2)]])
  then have d: "distinct ds"
    and look: "\<And>k. k < length ds \<Longrightarrow> note_colors s' (ds ! k) = Some (NOTE_COLORS ! (k mod 12))"
    by (simp_all add: colors_follow_def distinct_NOTE_COLORS)
  have diff: "note_colors s' (ds ! j) \<noteq> note_colors s' (ds ! k)"
    if "j < k \<and> k < 12 \<and> k < length ds" for j k
  proof -
    have "NOTE_COLORS ! j \<noteq> NOTE_COLORS ! k"
      using that distinct_NOTE_COLORS by (simp add: nth_eq_iff_index_eq)
    then show ?thesis using that look [of j] look [of k] by simp
  qed
  have wrap: "note_colors s' (ds ! 12) = Some (NOTE_COLORS ! 0)
               \<and> note_colors s' (ds ! 12) = note_colors s' (ds ! 0)" if "12 < length ds"
  proof -
    have "0 < length ds" using that by auto
    then show ?thesis using that look [of 12] look [of 0] by simp
  qed
  show ?thesis
    using d look diff wrap distinct_NOTE_COLORS handle_event_keeps_color by blast
qed

theorem colors_round_robin_witness:
  "note_colors (clear init) = Map.empty \<and> color_index (clear init) = 0
   \<and> seen_order [] (note_on_notes example_thirteen_notes)
       = [60, 61, 62, 63, 64, 65, 66, 67, 68, 69, 70, 71, 72]
   \<and> note_colors (fold handle_event example_thirteen_notes (clear init)) 60 = Some (65, 156, 255)
   \<and> note_colors (fold handle_event example_thirteen_notes (clear init)) 61 = Some (255, 100, 100)
   \<and> note_colors (fold handle_event example_thirteen_notes (clear init)) 71 = Some (255, 150, 200)
   \<and> note_colors (fold handle_event example_thirteen_notes (clear init)) 72 = Some (65, 156, 255)"
proof -
  let ?ds = "[60, 61, 62, 63, 64, 65, 66, 67, 68, 69, 70, 71, 72::nat]"
  let ?s' = "fold handle_event example_thirteen_notes (clear init)"
  have r: "note_colors (clear init) = Map.empty" "color_index (clear init) = 0"
    by (simp_all add: clear_def)
  have ds: "?ds = seen_order [] (note_on_notes example_thirteen_notes)"
    by (simp add: example_thirteen_notes_def note_on_notes_def is_note_on_def status_of_def)
  have all: "\<forall>k<length ?ds. note_colors ?s' (?ds ! k) = Some (NOTE_COLORS ! (k mod 12))"
    using colors_round_robin [OF r ds refl] by blast
  have "note_colors ?s' (?ds ! 0) = Some (NOTE_COLORS ! (0 mod 12))"
    "note_colors ?s' (?ds ! 1) = Some (NOTE_COLORS ! (1 mod 12))"
    "note_colors ?s' (?ds ! 11) = Some (NOTE_COLORS ! (11 mod 12))"
    "note_colors ?s' (?ds ! 12) = Some (NOTE_COLORS ! (12 mod 12))"
    using all [rule_format, of 0] all [rule_format, of 1] all [rule_format, of 11]
      all [rule_format, of 12]
    by simp_all
  then show ?thesis
    using r ds [symmetric] by (simp add: NOTE_COLORS_def)
qed

text \<open>
  C10, as the code has it. In a bridged gap of a buffer of MIDI velocities the floor never
  applies: for each \<open>j\<close> of \<open>1..G\<close> the floor is at most the interpolated value, so the maximum
  of the two is the interpolated value and the bridged sample is the interpolated value,
  which differs from the exact linear interpolation by at most \<open>max start end / 2 ^ 49\<close>.
  The reason is not that the interpolated value is at least the smaller anchor: in float64
  it is only at least \<open>(1 - 1 / 2 ^ 51)\<close> times the smaller anchor, still far above 0.7 times
  it. Between two anchors of velocity 3 with 9 zeros between them the interpolated value
  for \<open>j = 3\<close> is 2.9999999999999996 (\<open>6755399441055743 / 2 ^ 51\<close>), below both anchors.
\<close>

theorem floor_never_alters:
  assumes "midi_values vh" and "consecutive_anchors vh a b" and "b - a - 1 \<le> gap_threshold"
    and "1 \<le> j" and "j \<le> b - a - 1"
  shows "min_transition_velocity (vh ! a) (vh ! b) \<le> interp_vel (vh ! a) (vh ! b) (b - a - 1) j
         \<and> max (interp_vel (vh ! a) (vh ! b) (b - a - 1) j)
               (min_transition_velocity (vh ! a) (vh ! b))
             = interp_vel (vh ! a) (vh ! b) (b - a - 1) j
         \<and> velocity_smoothed vh nh ! (a + j) = interp_vel (vh ! a) (vh ! b) (b - a - 1) j
         \<and> min (vh ! a) (vh ! b) * (1 - 1 / 2 ^ 51) \<le> interp_vel (vh ! a) (vh ! b) (b - a - 1) j
         \<and> 7 / 10 * min (vh ! a) (vh ! b) \<le> interp_vel (vh ! a) (vh ! b) (b - a - 1) j
         \<and> \<bar>interp_vel (vh ! a) (vh ! b) (b - a - 1) j
             - (vh ! a * (1 - real j / real (b - a)) + vh ! b * (real j / real (b - a)))\<bar>
           \<le> max (vh ! a) (vh ! b) / 2 ^ 49"
proof -
  note c = consecutive_anchorsD [OF assms(2)]
  have g: "b - a - 1 \<le> 20" using assms(3) by (simp add: gap_threshold_def)
  have k: "a < a + j" "a + j < b" using assms(4,5) by simp_all
  have d: "b - a - 1 + 1 = b - a" using c(1) by simp
  have 1: "min_transition_velocity (vh ! a) (vh ! b) \<le> interp_vel (vh ! a) (vh ! b) (b - a - 1) j"
    using floor_below_interp [OF c(3,4) assms(5) g] .
  then have 2: "max (interp_vel (vh ! a) (vh ! b) (b - a - 1) j)
               (min_transition_velocity (vh ! a) (vh ! b))
             = interp_vel (vh ! a) (vh ! b) (b - a - 1) j"
    by (rule max_absorb1)
  have 3: "velocity_smoothed vh nh ! (a + j) = interp_vel (vh ! a) (vh ! b) (b - a - 1) j"
    using velocity_smoothed_bridged(1) [OF assms(2,3) k, of nh] by simp
  have 4: "min (vh ! a) (vh ! b) * (1 - 1 / 2 ^ 51) \<le> interp_vel (vh ! a) (vh ! b) (b - a - 1) j"
    using interp_vel_near_min [OF c(3,4) assms(5) g] .
  have 5: "\<bar>interp_vel (vh ! a) (vh ! b) (b - a - 1) j
             - (vh ! a * (1 - real j / real (b - a)) + vh ! b * (real j / real (b - a)))\<bar>
           \<le> max (vh ! a) (vh ! b) / 2 ^ 49"
    using interp_vel_close [OF c(3,4) assms(5) g] unfolding d .
  have "min (vh ! a) (vh ! b) * (7 / 10) \<le> min (vh ! a) (vh ! b) * (1 - 1 / 2 ^ 51)"
    using c(3,4) by (intro mult_left_mono) simp_all
  then have "min (vh ! a) (vh ! b) * (7 / 10) \<le> interp_vel (vh ! a) (vh ! b) (b - a - 1) j"
    using 4 by (rule order_trans)
  then have 6: "7 / 10 * min (vh ! a) (vh ! b) \<le> interp_vel (vh ! a) (vh ! b) (b - a - 1) j"
    by (simp only: mult.commute)
  show ?thesis using 1 2 3 4 5 6 by blast
qed

theorem floor_never_alters_witness:
  "midi_values [80, 0, 0, 0, 0, 0, 100]
   \<and> consecutive_anchors [80, 0, 0, 0, 0, 0, 100] 0 6
   \<and> min_transition_velocity 80 100 = 56
   \<and> interp_vel 80 100 5 2 = 6098624495397547 / 70368744177664
   \<and> max (interp_vel 80 100 5 2) (min_transition_velocity 80 100) = 6098624495397547 / 70368744177664
   \<and> velocity_smoothed [80, 0, 0, 0, 0, 0, 100] [60, - 1, - 1, - 1, - 1, - 1, 62] ! 2
       = 6098624495397547 / 70368744177664"
proof -
  let ?vh = "[80, 0, 0, 0, 0, 0, 100::real]"
  let ?nh = "[60, - 1, - 1, - 1, - 1, - 1, 62::int]"
  have mv: "midi_values ?vh" by (simp add: midi_values_def)
  have ca: "consecutive_anchors ?vh 0 6" by code_simp
  have h: "6 - 0 - 1 \<le> gap_threshold" "1 \<le> (2::nat)" "(2::nat) \<le> 6 - 0 - 1"
    by (simp_all add: gap_threshold_def)
  have arg: "?vh ! 0 = 80" "?vh ! 6 = 100" "(6::nat) - 0 - 1 = 5" "(0::nat) + 2 = 2"
    by simp_all
  note t = floor_never_alters [OF mv ca h, of ?nh, unfolded arg]
  have iv: "interp_vel 80 100 5 2 = 6098624495397547 / 70368744177664"
    by (rule interp_vel_80_100_5_2)
  have mt: "min_transition_velocity 80 100 = 56"
    by (rule min_transition_velocity_80_100)
  have "max (interp_vel 80 100 5 2) (min_transition_velocity 80 100) = 6098624495397547 / 70368744177664"
    using t unfolding iv by blast
  moreover have "velocity_smoothed ?vh ?nh ! 2 = 6098624495397547 / 70368744177664"
    using t unfolding iv by blast
  ultimately show ?thesis
    using mv ca iv mt by simp
qed

theorem interp_below_min_counterexample:
  "midi_values [3, 0, 0, 0, 0, 0, 0, 0, 0, 0, 3]
   \<and> consecutive_anchors [3, 0, 0, 0, 0, 0, 0, 0, 0, 0, 3] 0 10
   \<and> interp_vel 3 3 9 3 = 6755399441055743 / 2251799813685248
   \<and> interp_vel 3 3 9 3 < min 3 3
   \<and> velocity_smoothed [3, 0, 0, 0, 0, 0, 0, 0, 0, 0, 3] [60, - 1, - 1, - 1, - 1, - 1, - 1, - 1, - 1, - 1, 60] ! 3
       = 6755399441055743 / 2251799813685248
   \<and> velocity_smoothed [3, 0, 0, 0, 0, 0, 0, 0, 0, 0, 3] [60, - 1, - 1, - 1, - 1, - 1, - 1, - 1, - 1, - 1, 60] ! 3
       < min ([3, 0, 0, 0, 0, 0, 0, 0, 0, 0, 3] ! 0) ([3, 0, 0, 0, 0, 0, 0, 0, 0, 0, 3] ! 10)"
proof -
  let ?vh = "[3, 0, 0, 0, 0, 0, 0, 0, 0, 0, 3::real]"
  let ?nh = "[60, - 1, - 1, - 1, - 1, - 1, - 1, - 1, - 1, - 1, 60::int]"
  have ca: "consecutive_anchors ?vh 0 10" by code_simp
  have small: "10 - 0 - 1 \<le> gap_threshold" by (simp add: gap_threshold_def)
  have iv: "interp_vel 3 3 9 3 = 6755399441055743 / 2251799813685248"
    by (rule interp_vel_3_3_9_3)
  have "velocity_smoothed ?vh ?nh ! 3 = interp_vel (?vh ! 0) (?vh ! 10) (10 - 0 - 1) (3 - 0)"
    by (rule velocity_smoothed_bridged(1) [OF ca small]) simp_all
  moreover have "interp_vel (?vh ! 0) (?vh ! 10) (10 - 0 - 1) (3 - 0) = interp_vel 3 3 9 3"
    by simp
  ultimately have sm: "velocity_smoothed ?vh ?nh ! 3 = 6755399441055743 / 2251799813685248"
    by (simp only: iv)
  have lt: "(6755399441055743 / 2251799813685248 :: real) < min 3 3" by simp
  have anchors: "?vh ! 0 = 3" "?vh ! 10 = 3" by simp_all
  have mv: "midi_values ?vh" by (simp add: midi_values_def)
  show ?thesis
    unfolding sm iv anchors using mv ca lt by simp
qed

end
